theory Spec2Isabelle
  imports Main
begin

section \<open>Credential payloads as JavaScript values\<close>

text \<open>
  A decrypted credential payload (\<^verbatim>\<open>ICredentialDataDecryptedObject\<close>) is a plain
  JavaScript object: string keys, and values that are strings, numbers, booleans, arrays
  or nested objects. An object is the list of its own properties in the order
  \<^verbatim>\<open>Object.keys\<close> enumerates them; an array is the list of its elements.
  Numbers are the integers (nothing below depends on a number's value except whether it
  is zero). \<^verbatim>\<open>undefined\<close> is a value, because reading a missing property yields it.

  Reading a property that an object does not have itself goes on to its prototype. The
  objects of a payload come from \<^verbatim>\<open>JSON.parse\<close>, so their prototype is
  \<^verbatim>\<open>Object.prototype\<close>, and that of an array is \<^verbatim>\<open>Array.prototype\<close>: such a read
  yields a native function (\<open>JFunction\<close>), or for the key \<^verbatim>\<open>__proto__\<close> the
  prototype itself (\<open>JObjectPrototype\<close>, \<open>JArrayPrototype\<close>).
\<close>

datatype jsval =
    JUndefined
  | JNull
  | JBool bool
  | JNum int
  | JStr string
  | JFunction
  | JObjectPrototype
  | JArrayPrototype
  | JArr "jsval list"
  | JObj "(string \<times> jsval) list"

type_synonym jsobject = "(string \<times> jsval) list"

datatype error =
    TypeError
  | UnknownCredentialTypeError
  | NotFoundError
  | BadRequestError
  | ValidationError
  | DecryptionError
  | QueryFailedError

text \<open>The key under which \<^verbatim>\<open>Object.entries\<close> lists the element \<open>n\<close> of an array:
  its index in decimal.\<close>

definition digit_char :: "nat \<Rightarrow> char" where
  "digit_char d = char_of (48 + d)"

function index_key :: "nat \<Rightarrow> string" where
  "index_key n =
     (if n < 10 then [digit_char n] else index_key (n div 10) @ [digit_char (n mod 10)])"
  by pat_completeness auto
termination
  by (relation "measure id") auto

declare index_key.simps [simp del]

text \<open>\<^verbatim>\<open>value.toString()\<close>. It throws on \<^verbatim>\<open>null\<close> and \<^verbatim>\<open>undefined\<close>, and on an
  object whose own property \<^verbatim>\<open>toString\<close> shadows the inherited method (payloads hold
  no functions). An array joins its elements with commas, \<^verbatim>\<open>null\<close> and
  \<^verbatim>\<open>undefined\<close> elements counting as the empty string.\<close>

fun js_toString :: "jsval \<Rightarrow> error + string"
  and join_elems :: "jsval list \<Rightarrow> error + string" where
  "js_toString JUndefined = Inl TypeError"
| "js_toString JNull = Inl TypeError"
| "js_toString (JBool b) = Inr (if b then ''true'' else ''false'')"
| "js_toString (JNum i) =
     Inr (if i < 0 then CHR ''-'' # index_key (nat (- i)) else index_key (nat i))"
| "js_toString (JStr s) = Inr s"
| "js_toString JFunction = Inr ''function () { [native code] }''"
| "js_toString JObjectPrototype = Inr ''[object Object]''"
| "js_toString JArrayPrototype = Inr []"
| "js_toString (JArr xs) = join_elems xs"
| "js_toString (JObj kvs) =
     (if ''toString'' \<in> set (map fst kvs) then Inl TypeError else Inr ''[object Object]'')"
| "join_elems [] = Inr []"
| "join_elems (x # xs) =
     (case (if x = JNull \<or> x = JUndefined then Inr [] else js_toString x) of
        Inl e \<Rightarrow> Inl e
      | Inr s \<Rightarrow>
          (if xs = [] then Inr s
           else (case join_elems xs of
                   Inl e \<Rightarrow> Inl e
                 | Inr t \<Rightarrow> Inr (s @ '','' @ t))))"

text \<open>\<^verbatim>\<open>(value as string).startsWith(p)\<close>: the cast is erased at run time, so a value that
  is not a string has no such method and the call throws.\<close>

fun startsWith :: "jsval \<Rightarrow> string \<Rightarrow> error + bool" where
  "startsWith (JStr s) p = Inr (take (length p) s = p)"
| "startsWith _ p = Inl TypeError"


text \<open>\<^verbatim>\<open>typeof value === 'object' && value !== null\<close>. The type of a function is
  \<^verbatim>\<open>'function'\<close>.\<close>

fun is_object :: "jsval \<Rightarrow> bool" where
  "is_object (JArr xs) = True"
| "is_object (JObj kvs) = True"
| "is_object JObjectPrototype = True"
| "is_object JArrayPrototype = True"
| "is_object _ = False"

text \<open>The own enumerable properties of a value (\<^verbatim>\<open>Object.entries\<close>). An array also
  has \<^verbatim>\<open>length\<close>, which is not enumerable; the properties of the two prototypes are
  not enumerable either.\<close>

fun own_entries :: "jsval \<Rightarrow> (string \<times> jsval) list" where
  "own_entries (JObj kvs) = kvs"
| "own_entries (JArr xs) = zip (map index_key [0..<length xs]) xs"
| "own_entries _ = []"

fun array_length :: "jsval \<Rightarrow> jsval option" where
  "array_length (JArr xs) = Some (JNum (int (length xs)))"
| "array_length JArrayPrototype = Some (JNum 0)"
| "array_length _ = None"

text \<open>The members of \<^verbatim>\<open>Object.prototype\<close> and of \<^verbatim>\<open>Array.prototype\<close> that have a
  string key, \<^verbatim>\<open>__proto__\<close> apart, as of ECMAScript 2023 (an older runtime lacks the
  latest of the array methods). All of them are functions.\<close>

definition objectPrototypeMembers :: "string list" where
  "objectPrototypeMembers =
     [''constructor'', ''hasOwnProperty'', ''isPrototypeOf'', ''propertyIsEnumerable'',
      ''toLocaleString'', ''toString'', ''valueOf'', ''__defineGetter__'',
      ''__defineSetter__'', ''__lookupGetter__'', ''__lookupSetter__'']"

definition arrayPrototypeMembers :: "string list" where
  "arrayPrototypeMembers =
     [''at'', ''concat'', ''copyWithin'', ''entries'', ''every'', ''fill'', ''filter'',
      ''find'', ''findIndex'', ''findLast'', ''findLastIndex'', ''flat'', ''flatMap'',
      ''forEach'', ''includes'', ''indexOf'', ''join'', ''keys'', ''lastIndexOf'', ''map'',
      ''pop'', ''push'', ''reduce'', ''reduceRight'', ''reverse'', ''shift'', ''slice'',
      ''some'', ''sort'', ''splice'', ''toReversed'', ''toSorted'', ''toSpliced'',
      ''unshift'', ''values'', ''with'']"

fun inherits :: "jsval \<Rightarrow> string \<Rightarrow> bool" where
  "inherits (JObj kvs) k = (k \<in> set objectPrototypeMembers)"
| "inherits JObjectPrototype k = (k \<in> set objectPrototypeMembers)"
| "inherits (JArr xs) k =
     (k \<in> set arrayPrototypeMembers \<or> k \<in> set objectPrototypeMembers)"
| "inherits JArrayPrototype k =
     (k \<in> set arrayPrototypeMembers \<or> k \<in> set objectPrototypeMembers)"
| "inherits _ k = False"

fun prototypeOf :: "jsval \<Rightarrow> jsval" where
  "prototypeOf (JObj kvs) = JObjectPrototype"
| "prototypeOf (JArr xs) = JArrayPrototype"
| "prototypeOf JArrayPrototype = JObjectPrototype"
| "prototypeOf JObjectPrototype = JNull"
| "prototypeOf _ = JUndefined"

text \<open>The \<^verbatim>\<open>in\<close> operator and the property read \<^verbatim>\<open>value[key]\<close>, on an object or
  an array: the own property first, then what the prototype gives.\<close>

definition has_prop :: "jsval \<Rightarrow> string \<Rightarrow> bool" where
  "has_prop obj k =
     (k \<in> set (map fst (own_entries obj))
      \<or> (k = ''length'' \<and> array_length obj \<noteq> None)
      \<or> inherits obj k
      \<or> (k = ''__proto__'' \<and> is_object obj))"

definition get_prop :: "jsval \<Rightarrow> string \<Rightarrow> jsval" where
  "get_prop obj k =
     (case map_of (own_entries obj) k of
        Some v \<Rightarrow> v
      | None \<Rightarrow>
          (case (if k = ''length'' then array_length obj else None) of
             Some n \<Rightarrow> n
           | None \<Rightarrow>
               (if inherits obj k then JFunction
                else if k = ''__proto__'' then prototypeOf obj
                else JUndefined)))"

text \<open>The assignment \<^verbatim>\<open>obj[key] = value\<close> on an object: an existing property keeps its
  place, a new one is added last.\<close>

fun set_prop :: "jsobject \<Rightarrow> string \<Rightarrow> jsval \<Rightarrow> jsobject" where
  "set_prop [] k v = [(k, v)]"
| "set_prop ((k', v') # kvs) k v =
     (if k' = k then (k, v) # kvs else (k', v') # set_prop kvs k v)"

text \<open>
  Modelled from the spec: \<^verbatim>\<open>deepCopy\<close> is imported from \<^verbatim>\<open>n8n-workflow\<close> and is not
  among the sources; the spec has every request work on its own copy of a value. The
  helper builds a fresh object and assigns each own property of the source to it, copied
  in turn; a primitive and a function are returned as they are. The assignment to the key
  \<^verbatim>\<open>__proto__\<close> reaches the prototype setter and creates no property, so an own key of
  that name is lost in the copy. The model has the own properties of the copy; the
  prototype that the setter leaves it with is not followed, so the model is exact on values
  that have no key \<^verbatim>\<open>__proto__\<close>.
\<close>

fun deepCopy :: "jsval \<Rightarrow> jsval"
  and deepCopyEntries :: "(string \<times> jsval) list \<Rightarrow> (string \<times> jsval) list"
  and deepCopyElems :: "jsval list \<Rightarrow> jsval list" where
  "deepCopy (JObj kvs) = JObj (deepCopyEntries kvs)"
| "deepCopy (JArr xs) = JArr (deepCopyElems xs)"
| "deepCopy JObjectPrototype = JObj []"
| "deepCopy JArrayPrototype = JArr []"
| "deepCopy JUndefined = JUndefined"
| "deepCopy JNull = JNull"
| "deepCopy (JBool b) = JBool b"
| "deepCopy (JNum i) = JNum i"
| "deepCopy (JStr s) = JStr s"
| "deepCopy JFunction = JFunction"
| "deepCopyEntries [] = []"
| "deepCopyEntries ((k, v) # kvs) =
     (if k = ''__proto__'' then deepCopyEntries kvs else (k, deepCopy v) # deepCopyEntries kvs)"
| "deepCopyElems [] = []"
| "deepCopyElems (x # xs) = deepCopy x # deepCopyElems xs"

text \<open>Every object of a payload has each key once.\<close>

fun wf_val :: "jsval \<Rightarrow> bool"
  and wf_entries :: "(string \<times> jsval) list \<Rightarrow> bool"
  and wf_elems :: "jsval list \<Rightarrow> bool" where
  "wf_val (JObj kvs) = wf_entries kvs"
| "wf_val (JArr xs) = wf_elems xs"
| "wf_val JUndefined = True"
| "wf_val JNull = True"
| "wf_val (JBool b) = True"
| "wf_val (JNum i) = True"
| "wf_val (JStr s) = True"
| "wf_val JFunction = True"
| "wf_val JObjectPrototype = True"
| "wf_val JArrayPrototype = True"
| "wf_entries [] = True"
| "wf_entries ((k, v) # kvs) = (k \<notin> set (map fst kvs) \<and> wf_val v \<and> wf_entries kvs)"
| "wf_elems [] = True"
| "wf_elems (x # xs) = (wf_val x \<and> wf_elems xs)"

text \<open>The values that \<^verbatim>\<open>JSON.parse\<close> yields and that have no key \<^verbatim>\<open>__proto__\<close>, at
  any depth.\<close>

fun plain_val :: "jsval \<Rightarrow> bool"
  and plain_entries :: "(string \<times> jsval) list \<Rightarrow> bool"
  and plain_elems :: "jsval list \<Rightarrow> bool" where
  "plain_val (JObj kvs) = plain_entries kvs"
| "plain_val (JArr xs) = plain_elems xs"
| "plain_val JUndefined = False"
| "plain_val JNull = True"
| "plain_val (JBool b) = True"
| "plain_val (JNum i) = True"
| "plain_val (JStr s) = True"
| "plain_val JFunction = False"
| "plain_val JObjectPrototype = False"
| "plain_val JArrayPrototype = False"
| "plain_entries [] = True"
| "plain_entries ((k, v) # kvs) = (k \<noteq> ''__proto__'' \<and> plain_val v \<and> plain_entries kvs)"
| "plain_elems [] = True"
| "plain_elems (x # xs) = (plain_val x \<and> plain_elems xs)"

section \<open>The sentinels\<close>

text \<open>
  Modelled from the spec: the constants \<^verbatim>\<open>CREDENTIAL_BLANKING_VALUE\<close> (imported from
  \<^verbatim>\<open>@/constants\<close>) and \<^verbatim>\<open>CREDENTIAL_EMPTY_VALUE\<close> (imported from
  \<^verbatim>\<open>n8n-workflow\<close>) are declared outside the sources at hand. The spec asks for a
  blanking sentinel and a presence-but-empty sentinel, two distinct reserved strings.
\<close>

definition CREDENTIAL_BLANKING_VALUE :: string where
  "CREDENTIAL_BLANKING_VALUE = ''__n8n_BLANK_VALUE_e5362baf-c777-4d57-a609-6eaf1f9e87f6''"

definition CREDENTIAL_EMPTY_VALUE :: string where
  "CREDENTIAL_EMPTY_VALUE = ''__n8n_EMPTY_VALUE_7b1af746-3729-4c60-9b9b-e08eb29e58da''"

section \<open>Credential types and their flattened schema\<close>

record INodeProperties =
  name :: string
  password :: bool
  noDataExpression :: bool

record ICredentialType =
  typeName :: string
  extends :: "string list"
  properties :: "INodeProperties list"

text \<open>The registry \<^verbatim>\<open>CredentialTypes\<close>; \<^verbatim>\<open>getByName\<close> throws for a name it does not
  know.\<close>

type_synonym CredentialTypes = "string \<Rightarrow> ICredentialType option"

definition getByName :: "CredentialTypes \<Rightarrow> string \<Rightarrow> error + ICredentialType" where
  "getByName reg n =
     (case reg n of None \<Rightarrow> Inl UnknownCredentialTypeError | Some t \<Rightarrow> Inr t)"

text \<open>
  Modelled from the spec: \<^verbatim>\<open>NodeHelpers.mergeNodeProperties\<close> is not among the sources.
  Section 4.1 of the spec: a field declared again replaces the descriptor already in the
  list, in the place of its first occurrence; a new field is added at the end.
\<close>

fun mergeNodeProperty :: "INodeProperties list \<Rightarrow> INodeProperties \<Rightarrow> INodeProperties list" where
  "mergeNodeProperty [] p = [p]"
| "mergeNodeProperty (q # qs) p =
     (if name q = name p then p # qs else q # mergeNodeProperty qs p)"

definition mergeNodeProperties ::
  "INodeProperties list \<Rightarrow> INodeProperties list \<Rightarrow> INodeProperties list" where
  "mergeNodeProperties mainProperties addProperties =
     fold (\<lambda>p acc. mergeNodeProperty acc p) addProperties mainProperties"

text \<open>\<^verbatim>\<open>getExtendedProps\<close>, the closure inside \<^verbatim>\<open>redact\<close>. It recurses through
  \<^verbatim>\<open>extends\<close> and does not return on a cyclic chain, so the model counts the depth
  of the recursion down: \<open>None\<close> is a recursion deeper than the given bound. A parent type
  the registry does not know makes \<^verbatim>\<open>getByName\<close> throw.\<close>

fun getExtendedProps ::
    "nat \<Rightarrow> CredentialTypes \<Rightarrow> ICredentialType \<Rightarrow> (error + INodeProperties list) option"
  and extendsLoop ::
    "nat \<Rightarrow> CredentialTypes \<Rightarrow> string list \<Rightarrow> INodeProperties list \<Rightarrow>
       (error + INodeProperties list) option" where
  "getExtendedProps 0 reg t = None"
| "getExtendedProps (Suc n) reg t =
     (case extendsLoop n reg (extends t) [] of
        None \<Rightarrow> None
      | Some (Inl e) \<Rightarrow> Some (Inl e)
      | Some (Inr props) \<Rightarrow> Some (Inr (mergeNodeProperties props (properties t))))"
| "extendsLoop n reg [] props = Some (Inr props)"
| "extendsLoop n reg (e # es) props =
     (case getByName reg e of
        Inl err \<Rightarrow> Some (Inl err)
      | Inr extendsType \<Rightarrow>
          (case getExtendedProps n reg extendsType of
             None \<Rightarrow> None
           | Some (Inl err) \<Rightarrow> Some (Inl err)
           | Some (Inr extendedProps) \<Rightarrow>
               extendsLoop n reg es (mergeNodeProperties props extendedProps)))"

section \<open>The stored entities\<close>

text \<open>A row of the sharing table: the project \<open>projectId\<close> holds \<open>role\<close> over the
  credential \<open>credentialsId\<close>.\<close>

record SharedCredentials =
  credentialsId :: string
  projectId :: string
  role :: string

text \<open>The columns of a credential that the service reads: \<open>credData\<close> is the stored
  encrypted blob, \<open>shared\<close> the loaded relation, \<open>scopes\<close> the annotation that
  \<^verbatim>\<open>addScopes\<close> writes.\<close>

record CredentialsEntity =
  credId :: string
  credName :: string
  credType :: string
  credData :: string
  isManaged :: bool
  shared :: "SharedCredentials list"
  scopes :: "string list"

section \<open>Redaction\<close>

text \<open>The two branches that write a sentinel: the blanking value when the value's string
  form is not empty, the empty value otherwise.\<close>

definition maskValue :: "jsval \<Rightarrow> error + jsval" where
  "maskValue v =
     (case js_toString v of
        Inl e \<Rightarrow> Inl e
      | Inr s \<Rightarrow>
          Inr (JStr (if length s > 0 then CREDENTIAL_BLANKING_VALUE else CREDENTIAL_EMPTY_VALUE)))"

text \<open>One turn of the loop over \<^verbatim>\<open>Object.keys(copiedData)\<close>: the new value of the key.\<close>

definition redactField :: "INodeProperties list \<Rightarrow> string \<Rightarrow> jsval \<Rightarrow> error + jsval" where
  "redactField props dataKey v =
     (if dataKey = ''oauthTokenData'' \<or> dataKey = ''csrfSecret'' then maskValue v
      else
        (case find (\<lambda>p. name p = dataKey) props of
           None \<Rightarrow> Inr v
         | Some prop \<Rightarrow>
             (if password prop then
                (case startsWith v ''={{'' of
                   Inl e \<Rightarrow> Inl e
                 | Inr b \<Rightarrow> (if \<not> b \<or> noDataExpression prop then maskValue v else Inr v))
              else Inr v)))"

fun redactEntries :: "INodeProperties list \<Rightarrow> jsobject \<Rightarrow> error + jsobject" where
  "redactEntries props [] = Inr []"
| "redactEntries props ((k, v) # kvs) =
     (case redactField props k v of
        Inl e \<Rightarrow> Inl e
      | Inr v' \<Rightarrow>
          (case redactEntries props kvs of
             Inl e \<Rightarrow> Inl e
           | Inr kvs' \<Rightarrow> Inr ((k, v') # kvs')))"

text \<open>\<^verbatim>\<open>redact(data, credential)\<close>. The loop runs over the copy and the copy is
  returned; the \<^verbatim>\<open>catch\<close> returns \<^verbatim>\<open>data\<close> itself. The first \<^verbatim>\<open>getByName\<close>
  is inside the \<^verbatim>\<open>try\<close>; the calls made by \<^verbatim>\<open>getExtendedProps\<close> are not.\<close>

definition redact ::
  "nat \<Rightarrow> CredentialTypes \<Rightarrow> jsobject \<Rightarrow> CredentialsEntity \<Rightarrow> (error + jsobject) option" where
  "redact depth reg data credential =
     (case getByName reg (credType credential) of
        Inl e \<Rightarrow> Some (Inr data)
      | Inr credType' \<Rightarrow>
          (case getExtendedProps depth reg credType' of
             None \<Rightarrow> None
           | Some (Inl e) \<Rightarrow> Some (Inl e)
           | Some (Inr props) \<Rightarrow> Some (redactEntries props (deepCopyEntries data))))"

section \<open>Unredaction\<close>

text \<open>\<^verbatim>\<open>unredactRestoreValues(unmerged, replacement)\<close> mutates \<^verbatim>\<open>unmerged\<close>; the model
  returns its new value. The loop runs over the entries as they were at its start, and
  each turn writes only the key it visits. The method is private and is called on a copy
  only.\<close>

fun unredactRestoreValues :: "jsval \<Rightarrow> jsval \<Rightarrow> jsval"
  and restoreEntries :: "(string \<times> jsval) list \<Rightarrow> jsval \<Rightarrow> (string \<times> jsval) list"
  and restoreElems :: "nat \<Rightarrow> jsval list \<Rightarrow> jsval \<Rightarrow> jsval list" where
  "unredactRestoreValues (JObj kvs) replacement = JObj (restoreEntries kvs replacement)"
| "unredactRestoreValues (JArr xs) replacement = JArr (restoreElems 0 xs replacement)"
| "unredactRestoreValues JUndefined replacement = JUndefined"
| "unredactRestoreValues JNull replacement = JNull"
| "unredactRestoreValues (JBool b) replacement = JBool b"
| "unredactRestoreValues (JNum i) replacement = JNum i"
| "unredactRestoreValues (JStr s) replacement = JStr s"
| "unredactRestoreValues JFunction replacement = JFunction"
| "unredactRestoreValues JObjectPrototype replacement = JObjectPrototype"
| "unredactRestoreValues JArrayPrototype replacement = JArrayPrototype"
| "restoreEntries [] replacement = []"
| "restoreEntries ((key, v) # kvs) replacement =
     (key,
      if v = JStr CREDENTIAL_BLANKING_VALUE \<or> v = JStr CREDENTIAL_EMPTY_VALUE
      then get_prop replacement key
      else if is_object v \<and> has_prop replacement key \<and> is_object (get_prop replacement key)
      then unredactRestoreValues v (get_prop replacement key)
      else v) # restoreEntries kvs replacement"
| "restoreElems i [] replacement = []"
| "restoreElems i (v # xs) replacement =
     (if v = JStr CREDENTIAL_BLANKING_VALUE \<or> v = JStr CREDENTIAL_EMPTY_VALUE
      then get_prop replacement (index_key i)
      else if is_object v \<and> has_prop replacement (index_key i)
              \<and> is_object (get_prop replacement (index_key i))
      then unredactRestoreValues v (get_prop replacement (index_key i))
      else v) # restoreElems (Suc i) xs replacement"

definition unredact :: "jsobject \<Rightarrow> jsobject \<Rightarrow> jsobject" where
  "unredact redactedData savedData =
     restoreEntries (deepCopyEntries redactedData) (JObj savedData)"

section \<open>Updating a credential\<close>



section \<open>Users, projects and the collaborators of the service\<close>

record User =
  userId :: string
  globalScopes :: "string list"

text \<open>\<^verbatim>\<open>user.hasGlobalScope(scope)\<close> and \<^verbatim>\<open>user.hasGlobalScope(scopes, { mode: 'allOf' })\<close>.
  The user entity is outside the sources. With \<^verbatim>\<open>allOf\<close> an empty list of scopes is
  held by nobody.\<close>

definition hasGlobalScope :: "User \<Rightarrow> string \<Rightarrow> bool" where
  "hasGlobalScope user scope = (scope \<in> set (globalScopes user))"

definition hasGlobalScopes :: "User \<Rightarrow> string list \<Rightarrow> bool" where
  "hasGlobalScopes user ss = (ss \<noteq> [] \<and> list_all (\<lambda>s. s \<in> set (globalScopes user)) ss)"

record Project =
  projId :: string
  projType :: string

record ProjectRelation =
  relProjectId :: string
  relUserId :: string
  relRole :: string

text \<open>The \<^verbatim>\<open>where\<close> clause that \<^verbatim>\<open>getSharing\<close> builds: the credential, and for a
  user without the global scopes also the owner role and the personal owner of the
  project.\<close>

record SharingWhere =
  whereCredentialsId :: string
  whereRole :: "string option"
  wherePersonalOwner :: "string option"

record SharingWithCredentials = SharedCredentials +
  credentials :: CredentialsEntity

record ListQueryFilter =
  filterProjectId :: "string option"
  filterSharedProjectId :: "string option"

record ListQueryOptions =
  lqFilter :: "ListQueryFilter option"
  lqSelect :: "string list option"

record GetManyOptions =
  listQueryOptions :: "ListQueryOptions option"
  includeScopes :: "string option"

text \<open>The repositories and services that the credentials service is constructed with.
  Their code is outside the sources; each is a parameter, a function of its arguments
  that leaves them as they are. \<open>decryptData\<close> stands for the cipher behind
  \<^verbatim>\<open>decrypt\<close>.\<close>

record Services =
  credentialTypes :: CredentialTypes
  decryptData :: "CredentialsEntity \<Rightarrow> error + jsobject"
  findOne :: "SharingWhere \<Rightarrow> SharingWithCredentials option"
  getProjectRelationsForUser :: "User \<Rightarrow> ProjectRelation list"
  getProject :: "string \<Rightarrow> Project option"
  getPersonalProject :: "User \<Rightarrow> Project option"
  findMany :: "ListQueryOptions option \<Rightarrow> string list option \<Rightarrow> CredentialsEntity list"
  getAllRelationsForCredentials :: "string list \<Rightarrow> SharedCredentials list"
  getCredentialIdsByUserAndRole :: "string list \<Rightarrow> string list \<Rightarrow> string list"
  addOwnedByAndSharedWith :: "CredentialsEntity \<Rightarrow> CredentialsEntity"
  combineResourceScopes ::
    "CredentialsEntity \<Rightarrow> User \<Rightarrow> ProjectRelation list \<Rightarrow> string list"
  findCredentialsForUser :: "User \<Rightarrow> string list \<Rightarrow> CredentialsEntity list"
  findPersonalOwnerForWorkflow :: "string \<Rightarrow> User option"
  findPersonalOwnerForProject :: "string \<Rightarrow> User option"
  findAllPersonalCredentials :: "CredentialsEntity list"
  findAllCredentialsForWorkflow :: "string \<Rightarrow> CredentialsEntity list"
  findAllCredentialsForProject :: "string \<Rightarrow> CredentialsEntity list"

text \<open>
  Modelled from the spec: \<^verbatim>\<open>roleService.addScopes\<close> is not among the sources. Section
  4.2 of the spec computes the scopes a user holds over a credential from the global
  grants and the sharing roles; \<^verbatim>\<open>addScopes\<close> writes them on the entity and leaves its
  other fields as they are. The computation is the parameter
  \<open>combineResourceScopes\<close>.
\<close>

definition addScopes ::
  "Services \<Rightarrow> CredentialsEntity \<Rightarrow> User \<Rightarrow> ProjectRelation list \<Rightarrow> CredentialsEntity" where
  "addScopes env c user projectRelations =
     c\<lparr>scopes := combineResourceScopes env c user projectRelations\<rparr>"

section \<open>Reading one credential\<close>

definition getSharing ::
  "Services \<Rightarrow> User \<Rightarrow> string \<Rightarrow> string list \<Rightarrow> SharingWithCredentials option" where
  "getSharing env user credentialId globalScopes' =
     (let where0 = \<lparr>whereCredentialsId = credentialId, whereRole = None,
                     wherePersonalOwner = None\<rparr>;
          where1 =
            (if \<not> hasGlobalScopes user globalScopes' then
               where0\<lparr>whereRole := Some ''credential:owner'',
                       wherePersonalOwner := Some (userId user)\<rparr>
             else where0)
      in findOne env where1)"

text \<open>The value of a property of the object that \<^verbatim>\<open>getOne\<close> returns, and the own
  properties of a credential entity.\<close>

datatype fieldval = FStr string | FBool bool | FPayload jsobject

definition entityFields :: "CredentialsEntity \<Rightarrow> (string \<times> fieldval) list" where
  "entityFields c =
     [(''id'', FStr (credId c)), (''name'', FStr (credName c)), (''type'', FStr (credType c)),
      (''data'', FStr (credData c)), (''isManaged'', FBool (isManaged c))]"

text \<open>\<^verbatim>\<open>const { data: _, ...rest } = credential\<close>.\<close>

definition restOf :: "CredentialsEntity \<Rightarrow> (string \<times> fieldval) list" where
  "restOf c = filter (\<lambda>(k, v). k \<noteq> ''data'') (entityFields c)"

text \<open>\<^verbatim>\<open>getOne(user, credentialId, includeDecryptedData)\<close>. A redacted payload is an
  object, so \<^verbatim>\<open>if (decryptedData)\<close> holds whenever the first branch ran.\<close>

definition getOne ::
  "Services \<Rightarrow> nat \<Rightarrow> User \<Rightarrow> string \<Rightarrow> bool \<Rightarrow> (error + (string \<times> fieldval) list) option" where
  "getOne env depth user credentialId includeDecryptedData =
     (case (if includeDecryptedData then getSharing env user credentialId [''credential:read'']
            else None) of
        Some sharing \<Rightarrow>
          (case decryptData env (credentials sharing) of
             Inl e \<Rightarrow> Some (Inl e)
           | Inr plain \<Rightarrow>
               (case redact depth (credentialTypes env) plain (credentials sharing) of
                  None \<Rightarrow> None
                | Some (Inl e) \<Rightarrow> Some (Inl e)
                | Some (Inr decryptedData) \<Rightarrow>
                    Some (Inr ((''data'', FPayload decryptedData) # restOf (credentials sharing)))))
      | None \<Rightarrow>
          (case getSharing env user credentialId [''credential:read''] of
             None \<Rightarrow> Some (Inl NotFoundError)
           | Some sharing \<Rightarrow> Some (Inr (restOf (credentials sharing)))))"

section \<open>Listing credentials\<close>

text \<open>\<^verbatim>\<open>if (options.includeScopes)\<close> and \<^verbatim>\<open>if (filter.projectId)\<close> test a string that
  may be absent: it must be present and not empty.\<close>

definition present :: "string option \<Rightarrow> bool" where
  "present s = (case s of None \<Rightarrow> False | Some t \<Rightarrow> t \<noteq> [])"

definition filterProjectIdOf :: "GetManyOptions \<Rightarrow> string option" where
  "filterProjectIdOf options =
     (case listQueryOptions options of
        None \<Rightarrow> None
      | Some lq \<Rightarrow> (case lqFilter lq of None \<Rightarrow> None | Some f \<Rightarrow> filterProjectId f))"

definition filterSharedProjectIdOf :: "GetManyOptions \<Rightarrow> string option" where
  "filterSharedProjectIdOf options =
     (case listQueryOptions options of
        None \<Rightarrow> None
      | Some lq \<Rightarrow> (case lqFilter lq of None \<Rightarrow> None | Some f \<Rightarrow> filterSharedProjectId f))"

text \<open>The assignment to \<^verbatim>\<open>options.listQueryOptions.filter.projectId\<close>;
  \<^verbatim>\<open>delete\<close> is the assignment of \<open>None\<close>. Both are reached only where the filter
  exists.\<close>

definition setFilterProjectId :: "GetManyOptions \<Rightarrow> string option \<Rightarrow> GetManyOptions" where
  "setFilterProjectId options v =
     options\<lparr>listQueryOptions :=
       map_option (\<lambda>lq. lq\<lparr>lqFilter := map_option (\<lambda>f. f\<lparr>filterProjectId := v\<rparr>) (lqFilter lq)\<rparr>)
         (listQueryOptions options)\<rparr>"

text \<open>The tail that both branches of \<^verbatim>\<open>getMany\<close> share: the relations of a list
  filtered by a shared project, the ownership annotation, the scopes.\<close>

definition decorate ::
  "Services \<Rightarrow> User \<Rightarrow> GetManyOptions \<Rightarrow> bool \<Rightarrow> ProjectRelation list \<Rightarrow>
     CredentialsEntity list \<Rightarrow> CredentialsEntity list" where
  "decorate env user options isDefaultSelect projectRelations credentials0 =
     (let credentials1 =
            (if isDefaultSelect then
               (let credentials' =
                      (if present (filterSharedProjectIdOf options) then
                         (let relations =
                                getAllRelationsForCredentials env (map credId credentials0)
                          in map (\<lambda>c. c\<lparr>shared :=
                                    filter (\<lambda>r. credentialsId r = credId c) relations\<rparr>)
                               credentials0)
                       else credentials0)
                in map (addOwnedByAndSharedWith env) credentials')
             else credentials0)
      in (if present (includeScopes options)
          then map (\<lambda>c. addScopes env c user projectRelations) credentials1
          else credentials1))"

definition getMany :: "Services \<Rightarrow> User \<Rightarrow> GetManyOptions \<Rightarrow> CredentialsEntity list" where
  "getMany env user options0 =
     (let returnAll = hasGlobalScope user ''credential:list'';
          isDefaultSelect =
            (case listQueryOptions options0 of
               None \<Rightarrow> True
             | Some lq \<Rightarrow> lqSelect lq = None);
          projectRelations =
            (if present (includeScopes options0) then getProjectRelationsForUser env user
             else []);
          options1 =
            (if present (includeScopes options0) \<and> present (filterProjectIdOf options0)
                \<and> hasGlobalScope user ''credential:list''
             then
               (case find (\<lambda>relation. Some (relProjectId relation) = filterProjectIdOf options0)
                       projectRelations of
                  None \<Rightarrow> options0
                | Some projectRelation \<Rightarrow>
                    (if relRole projectRelation = ''project:personalOwner''
                     then setFilterProjectId options0 None
                     else options0))
             else options0)
      in if returnAll then
           decorate env user options1 isDefaultSelect projectRelations
             (findMany env (listQueryOptions options1) None)
         else
           (let options2 =
                  (case filterProjectIdOf options1 of
                     None \<Rightarrow> options1
                   | Some pid \<Rightarrow>
                       (case getProject env pid of
                          None \<Rightarrow> options1
                        | Some project \<Rightarrow>
                            (if projType project = ''personal''
                             then setFilterProjectId options1
                                    (map_option projId (getPersonalProject env user))
                             else options1)));
                ids = getCredentialIdsByUserAndRole env [userId user] [''credential:read'']
            in decorate env user options2 isDefaultSelect projectRelations
                 (findMany env (listQueryOptions options2) (Some ids))))"

section \<open>The credentials a user can use in a workflow\<close>

datatype UsageContext = WorkflowId string | ProjectId string

record UsableCredential =
  ucId :: string
  ucName :: string
  ucType :: string
  ucScopes :: "string list"
  ucIsManaged :: bool

definition findAllCredentialIdsForWorkflow :: "Services \<Rightarrow> string \<Rightarrow> CredentialsEntity list" where
  "findAllCredentialIdsForWorkflow env workflowId =
     (case findPersonalOwnerForWorkflow env workflowId of
        None \<Rightarrow> findAllCredentialsForWorkflow env workflowId
      | Some user \<Rightarrow>
          (if hasGlobalScope user ''credential:read'' then findAllPersonalCredentials env
           else findAllCredentialsForWorkflow env workflowId))"

definition findAllCredentialIdsForProject :: "Services \<Rightarrow> string \<Rightarrow> CredentialsEntity list" where
  "findAllCredentialIdsForProject env projectId' =
     (case findPersonalOwnerForProject env projectId' of
        None \<Rightarrow> findAllCredentialsForProject env projectId'
      | Some user \<Rightarrow>
          (if hasGlobalScope user ''credential:read'' then findAllPersonalCredentials env
           else findAllCredentialsForProject env projectId'))"

definition allCredentialsForContext :: "Services \<Rightarrow> UsageContext \<Rightarrow> string list" where
  "allCredentialsForContext env options =
     (case options of
        WorkflowId workflowId \<Rightarrow> map credId (findAllCredentialIdsForWorkflow env workflowId)
      | ProjectId projectId' \<Rightarrow> map credId (findAllCredentialIdsForProject env projectId'))"

definition getCredentialsAUserCanUseInAWorkflow ::
  "Services \<Rightarrow> User \<Rightarrow> UsageContext \<Rightarrow> UsableCredential list" where
  "getCredentialsAUserCanUseInAWorkflow env user options =
     (let projectRelations = getProjectRelationsForUser env user;
          allCredentials = findCredentialsForUser env user [''credential:read''];
          allCredentialsForWorkflow = allCredentialsForContext env options;
          intersection =
            filter (\<lambda>c. credId c \<in> set allCredentialsForWorkflow) allCredentials
      in map (\<lambda>c. \<lparr>ucId = credId c, ucName = credName c, ucType = credType c,
                    ucScopes = scopes c, ucIsManaged = isManaged c\<rparr>)
           (map (\<lambda>c. addScopes env c user projectRelations) intersection))"

section \<open>Transferring the credentials of a project\<close>

text \<open>The sharing table is the list of its rows. Its primary key is the pair of the
  credential and the project: a project holds at most one role over a credential.\<close>

type_synonym sharing_table = "SharedCredentials list"

definition rowKey :: "SharedCredentials \<Rightarrow> string \<times> string" where
  "rowKey sc = (credentialsId sc, projectId sc)"

definition primaryKey :: "sharing_table \<Rightarrow> bool" where
  "primaryKey tbl = distinct (map rowKey tbl)"

text \<open>\<^verbatim>\<open>trx.findBy(SharedCredentials, { projectId: In(ids) })\<close>.\<close>

definition findByProjects :: "sharing_table \<Rightarrow> string list \<Rightarrow> SharedCredentials list" where
  "findByProjects tbl ids = filter (\<lambda>sc. projectId sc \<in> set ids) tbl"

text \<open>
  Modelled from the spec: \<^verbatim>\<open>sharedCredentialsRepository.makeOwner\<close> and
  \<^verbatim>\<open>deleteByIds\<close> are not among the sources. Section 4.4 of the spec: the owner rows
  are given to the destination project, and that overwrites any relation the destination
  already had to the same credential (its row is replaced, not duplicated); then the rows
  of the source project for those credentials are deleted.
\<close>

definition upsertRow :: "SharedCredentials \<Rightarrow> sharing_table \<Rightarrow> sharing_table" where
  "upsertRow r tbl =
     (if rowKey r \<in> set (map rowKey tbl)
      then map (\<lambda>x. if rowKey x = rowKey r then r else x) tbl
      else tbl @ [r])"

definition makeOwner :: "string list \<Rightarrow> string \<Rightarrow> sharing_table \<Rightarrow> sharing_table" where
  "makeOwner credentialIds projectId' tbl =
     fold (\<lambda>c. upsertRow \<lparr>credentialsId = c, projectId = projectId',
                          role = ''credential:owner''\<rparr>) credentialIds tbl"

definition deleteByIds :: "string list \<Rightarrow> string \<Rightarrow> sharing_table \<Rightarrow> sharing_table" where
  "deleteByIds sharedCredentialsIds projectId' tbl =
     filter (\<lambda>sc. \<not> (projectId sc = projectId' \<and> credentialsId sc \<in> set sharedCredentialsIds)) tbl"

text \<open>\<^verbatim>\<open>trx.insert\<close> adds the rows; the store refuses a row whose key is taken.\<close>

definition insertRows :: "SharedCredentials list \<Rightarrow> sharing_table \<Rightarrow> error + sharing_table" where
  "insertRows rows tbl =
     (if distinct (map rowKey (tbl @ rows)) then Inr (tbl @ rows) else Inl QueryFailedError)"

definition transferAll :: "string \<Rightarrow> string \<Rightarrow> sharing_table \<Rightarrow> error + sharing_table" where
  "transferAll fromProjectId toProjectId tbl =
     (let allSharedCredentials = findByProjects tbl [fromProjectId, toProjectId];
          sharedCredentialsOfFromProject =
            filter (\<lambda>sc. projectId sc = fromProjectId) allSharedCredentials;
          ownedCredentialIds =
            map credentialsId
              (filter (\<lambda>sc. role sc = ''credential:owner'') sharedCredentialsOfFromProject);
          tbl1 = makeOwner ownedCredentialIds toProjectId tbl;
          tbl2 = deleteByIds ownedCredentialIds fromProjectId tbl1;
          sharedCredentialIdsOfTransferee =
            map credentialsId (filter (\<lambda>sc. projectId sc = toProjectId) allSharedCredentials);
          sharedCredentialsToTransfer =
            filter (\<lambda>sc. role sc \<noteq> ''credential:owner''
                        \<and> credentialsId sc \<notin> set sharedCredentialIdsOfTransferee)
              sharedCredentialsOfFromProject
      in insertRows
           (map (\<lambda>sc. \<lparr>credentialsId = credentialsId sc, projectId = toProjectId,
                        role = role sc\<rparr>) sharedCredentialsToTransfer)
           tbl2)"

text \<open>The owner rows that the projects \<open>a\<close> and \<open>b\<close> hold, and the invariant of the
  table: no credential has two owner rows.\<close>

definition ownerRowsAcross :: "string \<Rightarrow> string \<Rightarrow> sharing_table \<Rightarrow> SharedCredentials list" where
  "ownerRowsAcross a b tbl =
     filter (\<lambda>sc. role sc = ''credential:owner'' \<and> (projectId sc = a \<or> projectId sc = b)) tbl"

definition singleOwner :: "sharing_table \<Rightarrow> bool" where
  "singleOwner tbl =
     distinct (map credentialsId (filter (\<lambda>sc. role sc = ''credential:owner'') tbl))"

section \<open>Vocabulary of the properties\<close>

definition is_sentinel :: "jsval \<Rightarrow> bool" where
  "is_sentinel v = (v = JStr CREDENTIAL_BLANKING_VALUE \<or> v = JStr CREDENTIAL_EMPTY_VALUE)"

definition crossCutting :: "string \<Rightarrow> bool" where
  "crossCutting k = (k = ''oauthTokenData'' \<or> k = ''csrfSecret'')"

definition passwordMarked :: "INodeProperties list \<Rightarrow> string \<Rightarrow> bool" where
  "passwordMarked props k =
     (case find (\<lambda>p. name p = k) props of None \<Rightarrow> False | Some prop \<Rightarrow> password prop)"

fun is_string :: "jsval \<Rightarrow> bool" where
  "is_string (JStr s) = True"
| "is_string _ = False"

text \<open>The payloads on which the loop of \<^verbatim>\<open>redact\<close> throws nothing: a cross-cutting key
  holds a value that has a string form, a password-marked field holds a string.\<close>

definition redactable :: "INodeProperties list \<Rightarrow> jsobject \<Rightarrow> bool" where
  "redactable props data =
     list_all (\<lambda>(k, v). if crossCutting k then \<not> isl (js_toString v)
                         else if passwordMarked props k then is_string v else True) data"

text \<open>The fields for which \<^verbatim>\<open>redact\<close> takes a masking branch: a cross-cutting key,
  or a field whose descriptor is password-marked, unless its value is an expression and
  the descriptor allows expressions.\<close>

definition masks :: "INodeProperties list \<Rightarrow> string \<Rightarrow> jsval \<Rightarrow> bool" where
  "masks props k v =
     (crossCutting k \<or>
      (case find (\<lambda>p. name p = k) props of
         None \<Rightarrow> False
       | Some prop \<Rightarrow>
           password prop \<and> (startsWith v ''={{'' \<noteq> Inr True \<or> noDataExpression prop)))"

text \<open>For the sharing table: the owner row of a credential in a project, the credentials
  a project owns, the rows a project holds for a credential, the copy of a row into a
  project, and the rows that \<^verbatim>\<open>transferAll\<close> inserts.\<close>

definition ownerRow :: "string \<Rightarrow> string \<Rightarrow> SharedCredentials" where
  "ownerRow c p = \<lparr>credentialsId = c, projectId = p, role = ''credential:owner''\<rparr>"

definition ownedBy :: "string \<Rightarrow> sharing_table \<Rightarrow> string list" where
  "ownedBy p tbl =
     map credentialsId (filter (\<lambda>sc. projectId sc = p \<and> role sc = ''credential:owner'') tbl)"

definition rowsFor :: "string \<Rightarrow> string \<Rightarrow> sharing_table \<Rightarrow> SharedCredentials set" where
  "rowsFor p c tbl = {y \<in> set tbl. projectId y = p \<and> credentialsId y = c}"

definition copyTo :: "string \<Rightarrow> SharedCredentials \<Rightarrow> SharedCredentials" where
  "copyTo p sc = \<lparr>credentialsId = credentialsId sc, projectId = p, role = role sc\<rparr>"

definition copiedRows :: "string \<Rightarrow> string \<Rightarrow> sharing_table \<Rightarrow> SharedCredentials list" where
  "copiedRows fromProjectId toProjectId tbl =
     map (\<lambda>sc. \<lparr>credentialsId = credentialsId sc, projectId = toProjectId, role = role sc\<rparr>)
       (filter (\<lambda>sc. projectId sc = fromProjectId \<and> role sc \<noteq> ''credential:owner''
                     \<and> credentialsId sc \<notin> credentialsId ` {t \<in> set tbl. projectId t = toProjectId})
          tbl)"

section \<open>Example data\<close>

text \<open>A credential type that inherits the fields of its parent, a credential of that type
  with its decrypted payload, and a credential whose type the registry has lost.\<close>

definition oAuth2Api :: ICredentialType where
  "oAuth2Api =
     \<lparr>typeName = ''oAuth2Api'', extends = [],
      properties =
        [\<lparr>name = ''clientId'', password = False, noDataExpression = False\<rparr>,
         \<lparr>name = ''clientSecret'', password = True, noDataExpression = False\<rparr>]\<rparr>"

definition microsoftOutlookOAuth2Api :: ICredentialType where
  "microsoftOutlookOAuth2Api =
     \<lparr>typeName = ''microsoftOutlookOAuth2Api'', extends = [''oAuth2Api''],
      properties = [\<lparr>name = ''scope'', password = False, noDataExpression = False\<rparr>]\<rparr>"

definition exampleTypes :: CredentialTypes where
  "exampleTypes =
     map_of [(''oAuth2Api'', oAuth2Api),
             (''microsoftOutlookOAuth2Api'', microsoftOutlookOAuth2Api)]"

definition outlookProps :: "INodeProperties list" where
  "outlookProps =
     [\<lparr>name = ''clientId'', password = False, noDataExpression = False\<rparr>,
      \<lparr>name = ''clientSecret'', password = True, noDataExpression = False\<rparr>,
      \<lparr>name = ''scope'', password = False, noDataExpression = False\<rparr>]"

definition outlookCredential :: CredentialsEntity where
  "outlookCredential =
     \<lparr>credId = ''c1'', credName = ''Outlook'', credType = ''microsoftOutlookOAuth2Api'',
      credData = ''U2FsdGVkX1'', isManaged = False, shared = [], scopes = []\<rparr>"

definition removedCredential :: CredentialsEntity where
  "removedCredential =
     \<lparr>credId = ''c2'', credName = ''Old'', credType = ''removedCommunityApi'',
      credData = ''U2FsdGVkX2'', isManaged = False, shared = [], scopes = []\<rparr>"

definition outlookPayload :: jsobject where
  "outlookPayload =
     [(''clientId'', JStr ''abc''),
      (''clientSecret'', JStr ''sk_live_abc''),
      (''scope'', JStr []),
      (''oauthTokenData'', JObj [(''access_token'', JStr ''tok'')])]"

definition outlookRedacted :: jsobject where
  "outlookRedacted =
     [(''clientId'', JStr ''abc''),
      (''clientSecret'', JStr CREDENTIAL_BLANKING_VALUE),
      (''scope'', JStr []),
      (''oauthTokenData'', JStr CREDENTIAL_BLANKING_VALUE)]"

definition numericSecretPayload :: jsobject where
  "numericSecretPayload = [(''clientSecret'', JNum 5)]"

definition emptySecretPayload :: jsobject where
  "emptySecretPayload = [(''clientSecret'', JStr []), (''csrfSecret'', JStr ''s3'')]"





text \<open>Payloads at the edge: token data that is an array holding the empty string, and a
  payload with a key \<^verbatim>\<open>__proto__\<close>.\<close>

definition arrayTokenPayload :: jsobject where
  "arrayTokenPayload = [(''oauthTokenData'', JArr [JStr []])]"

definition protoKeyPayload :: jsobject where
  "protoKeyPayload = [(''__proto__'', JStr ''x''), (''clientId'', JStr ''abc'')]"

text \<open>A small installation: Alice, a member without global scopes, whose personal
  project \<open>p1\<close> owns the credential \<open>c1\<close>, and Bob, whose personal project \<open>p2\<close>
  owns \<open>c3\<close>, which Alice may read.\<close>

definition alice :: User where
  "alice = \<lparr>userId = ''u1'', globalScopes = []\<rparr>"

definition bob :: User where
  "bob = \<lparr>userId = ''u2'', globalScopes = []\<rparr>"

definition bobCredential :: CredentialsEntity where
  "bobCredential =
     \<lparr>credId = ''c3'', credName = ''Bob'', credType = ''oAuth2Api'',
      credData = ''U2FsdGVkX3'', isManaged = False, shared = [], scopes = []\<rparr>"

definition aliceProject :: Project where
  "aliceProject = \<lparr>projId = ''p1'', projType = ''personal''\<rparr>"

definition bobProject :: Project where
  "bobProject = \<lparr>projId = ''p2'', projType = ''personal''\<rparr>"

definition exampleServices :: Services where
  "exampleServices =
     \<lparr>credentialTypes = exampleTypes,
      decryptData =
        (\<lambda>c. if credId c = ''c1'' then Inr outlookPayload else Inl DecryptionError),
      findOne =
        (\<lambda>w. if whereCredentialsId w = ''c1''
                 \<and> (wherePersonalOwner w = None \<or> wherePersonalOwner w = Some ''u1'')
              then Some \<lparr>credentialsId = ''c1'', projectId = ''p1'',
                         role = ''credential:owner'', credentials = outlookCredential\<rparr>
              else None),
      getProjectRelationsForUser =
        (\<lambda>u. if userId u = ''u1''
              then [\<lparr>relProjectId = ''p1'', relUserId = ''u1'',
                      relRole = ''project:personalOwner''\<rparr>]
              else []),
      getProject =
        map_of [(''p1'', aliceProject), (''p2'', bobProject)],
      getPersonalProject =
        (\<lambda>u. if userId u = ''u1'' then Some aliceProject
              else if userId u = ''u2'' then Some bobProject else None),
      findMany =
        (\<lambda>lq ids.
           filter (\<lambda>c. (case ids of None \<Rightarrow> True | Some xs \<Rightarrow> credId c \<in> set xs)
                       \<and> (case lq of
                             None \<Rightarrow> True
                           | Some q \<Rightarrow>
                               (case lqFilter q of
                                  None \<Rightarrow> True
                                | Some f \<Rightarrow>
                                    (case filterProjectId f of
                                       None \<Rightarrow> True
                                     | Some p \<Rightarrow>
                                         (p = ''p1'' \<and> credId c = ''c1'')
                                         \<or> (p = ''p2'' \<and> credId c = ''c3'')))))
             [outlookCredential, bobCredential]),
      getAllRelationsForCredentials = (\<lambda>ids. []),
      getCredentialIdsByUserAndRole =
        (\<lambda>users scopes'. if users = [''u1''] then [''c1'', ''c3''] else []),
      addOwnedByAndSharedWith = (\<lambda>c. c),
      combineResourceScopes = (\<lambda>c u rels. [''credential:read'']),
      findCredentialsForUser =
        (\<lambda>u scopes'. if userId u = ''u1'' then [outlookCredential, bobCredential] else []),
      findPersonalOwnerForWorkflow =
        (\<lambda>w. if w = ''w1'' then Some alice else None),
      findPersonalOwnerForProject =
        (\<lambda>p. if p = ''p1'' then Some alice else None),
      findAllPersonalCredentials = [outlookCredential, bobCredential],
      findAllCredentialsForWorkflow =
        (\<lambda>w. if w = ''w1'' then [outlookCredential] else []),
      findAllCredentialsForProject =
        (\<lambda>p. if p = ''p1'' then [outlookCredential] else [])\<rparr>"

definition bobProjectListing :: GetManyOptions where
  "bobProjectListing =
     \<lparr>listQueryOptions =
        Some \<lparr>lqFilter = Some \<lparr>filterProjectId = Some ''p2'', filterSharedProjectId = None\<rparr>,
              lqSelect = None\<rparr>,
      includeScopes = None\<rparr>"

text \<open>Sharing tables: the scenario of the spec, where project \<open>pA\<close> owns \<open>c1\<close> and
  \<open>c2\<close> and project \<open>pB\<close> already uses \<open>c1\<close>; and a table where \<open>pA\<close> also holds
  rows that it does not own.\<close>

definition scenarioTable :: sharing_table where
  "scenarioTable =
     [\<lparr>credentialsId = ''c1'', projectId = ''pA'', role = ''credential:owner''\<rparr>,
      \<lparr>credentialsId = ''c2'', projectId = ''pA'', role = ''credential:owner''\<rparr>,
      \<lparr>credentialsId = ''c1'', projectId = ''pB'', role = ''credential:user''\<rparr>]"

definition scenarioResult :: sharing_table where
  "scenarioResult =
     [\<lparr>credentialsId = ''c1'', projectId = ''pB'', role = ''credential:owner''\<rparr>,
      \<lparr>credentialsId = ''c2'', projectId = ''pB'', role = ''credential:owner''\<rparr>]"

definition sharedTable :: sharing_table where
  "sharedTable =
     [\<lparr>credentialsId = ''c1'', projectId = ''pA'', role = ''credential:owner''\<rparr>,
      \<lparr>credentialsId = ''c2'', projectId = ''pA'', role = ''credential:user''\<rparr>,
      \<lparr>credentialsId = ''c3'', projectId = ''pA'', role = ''credential:user''\<rparr>,
      \<lparr>credentialsId = ''c3'', projectId = ''pB'', role = ''credential:owner''\<rparr>]"

definition sharedResult :: sharing_table where
  "sharedResult =
     [\<lparr>credentialsId = ''c2'', projectId = ''pA'', role = ''credential:user''\<rparr>,
      \<lparr>credentialsId = ''c3'', projectId = ''pA'', role = ''credential:user''\<rparr>,
      \<lparr>credentialsId = ''c3'', projectId = ''pB'', role = ''credential:owner''\<rparr>,
      \<lparr>credentialsId = ''c1'', projectId = ''pB'', role = ''credential:owner''\<rparr>,
      \<lparr>credentialsId = ''c2'', projectId = ''pB'', role = ''credential:user''\<rparr>]"

section \<open>Properties of the value model\<close>

lemma digit_char_inj: "a < 10 \<Longrightarrow> b < 10 \<Longrightarrow> digit_char a = digit_char b \<Longrightarrow> a = b"
proof -
  assume a: "a < 10" and b: "b < 10" and e: "digit_char a = digit_char b"
  from e have "of_char (char_of (48 + a) :: char) = (of_char (char_of (48 + b) :: char) :: nat)"
    by (simp add: digit_char_def)
  with a b show "a = b" by simp
qed

lemma index_key_nonempty: "index_key n \<noteq> []"
  by (subst index_key.simps) simp

lemma index_key_inj: "index_key m = index_key n \<Longrightarrow> m = n"
proof (induction m arbitrary: n rule: index_key.induct)
  case (1 m)
  show ?case
  proof (cases "m < 10")
    case True
    show ?thesis
    proof (cases "n < 10")
      case n: True
      from "1.prems" True n have "digit_char m = digit_char n"
        by (simp add: index_key.simps [of m] index_key.simps [of n])
      with True n show ?thesis by (blast intro: digit_char_inj)
    next
      case n: False
      from "1.prems" True n show ?thesis
        using index_key_nonempty [of "n div 10"]
        by (simp add: index_key.simps [of m] index_key.simps [of n])
    qed
  next
    case False
    show ?thesis
    proof (cases "n < 10")
      case n: True
      from "1.prems" False n show ?thesis
        using index_key_nonempty [of "m div 10"]
        by (simp add: index_key.simps [of m] index_key.simps [of n])
    next
      case n: False
      from "1.prems" False n
      have e: "index_key (m div 10) = index_key (n div 10)" "digit_char (m mod 10) = digit_char (n mod 10)"
        by (simp_all add: index_key.simps [of m] index_key.simps [of n])
      from "1.IH" [OF False e(1)] have d: "m div 10 = n div 10" .
      from e(2) have "m mod 10 = n mod 10" by (intro digit_char_inj) simp_all
      with d show ?thesis by (metis div_mult_mod_eq)
    qed
  qed
qed

lemma distinct_index_keys: "distinct (map index_key [i..<j])"
  by (simp add: distinct_map inj_on_def) (blast dest: index_key_inj)


lemma map_of_index_entries:
  "i < length xs \<Longrightarrow> map_of (zip (map index_key [0..<length xs]) xs) (index_key i) = Some (xs ! i)"
proof -
  assume i: "i < length xs"
  have "map_of (zip (map index_key [0..<length xs]) xs) (map index_key [0..<length xs] ! i) = Some (xs ! i)"
    by (rule map_of_zip_nth) (simp_all add: distinct_index_keys i)
  with i show ?thesis by simp
qed

lemma get_prop_array: "i < length xs \<Longrightarrow> get_prop (JArr xs) (index_key i) = xs ! i"
  by (simp add: get_prop_def map_of_index_entries)

lemma has_prop_array: "i < length xs \<Longrightarrow> has_prop (JArr xs) (index_key i)"
  by (auto simp: has_prop_def)

lemma wf_entries_distinct: "wf_entries kvs \<Longrightarrow> distinct (map fst kvs)"
  by (induction kvs) force+

lemma get_prop_object:
  "wf_entries kvs \<Longrightarrow> (k, v) \<in> set kvs \<Longrightarrow> get_prop (JObj kvs) k = v"
  by (simp add: get_prop_def wf_entries_distinct)

lemma has_prop_object: "(k, v) \<in> set kvs \<Longrightarrow> has_prop (JObj kvs) k"
  by (force simp: has_prop_def)

lemma restore_same_aux:
  "(wf_val v \<longrightarrow> r = v \<longrightarrow> unredactRestoreValues v r = v)"
  "(wf_entries kvs \<longrightarrow> (\<forall>(k, w) \<in> set kvs. has_prop r k \<and> get_prop r k = w) \<longrightarrow> restoreEntries kvs r = kvs)"
  "(wf_elems xs \<longrightarrow> (\<forall>j < length xs. has_prop r (index_key (i + j)) \<and> get_prop r (index_key (i + j)) = xs ! j)
      \<longrightarrow> restoreElems i xs r = xs)"
proof (induction v r and kvs r and i xs r rule: unredactRestoreValues_restoreEntries_restoreElems.induct)
  case (1 kvs replacement)
  then show ?case by (auto simp: get_prop_object has_prop_object)
next
  case (2 xs replacement)
  then show ?case by (auto simp: get_prop_array has_prop_array)
next
  case (12 key v kvs replacement)
  then show ?case by auto
next
  case (14 i v xs replacement)
  show ?case
  proof (intro impI)
    assume wf: "wf_elems (v # xs)"
      and h: "\<forall>j<length (v # xs). has_prop replacement (index_key (i + j)) \<and> get_prop replacement (index_key (i + j)) = (v # xs) ! j"
    from h have h0: "has_prop replacement (index_key i)" "get_prop replacement (index_key i) = v"
      by auto
    from h have hs: "\<forall>j<length xs. has_prop replacement (index_key (Suc i + j)) \<and> get_prop replacement (index_key (Suc i + j)) = xs ! j"
      by fastforce
    from wf hs "14.IH"(2) have t: "restoreElems (Suc i) xs replacement = xs" by simp
    from wf h0 "14.IH"(1) t show "restoreElems i (v # xs) replacement = v # xs"
      by auto
  qed
qed simp_all

lemma deepCopy_plain:
  "plain_val v \<longrightarrow> deepCopy v = v"
  "plain_entries kvs \<longrightarrow> deepCopyEntries kvs = kvs"
  "plain_elems xs \<longrightarrow> deepCopyElems xs = xs"
  by (induction v and kvs and xs rule: deepCopy_deepCopyEntries_deepCopyElems.induct)
     simp_all


lemma deepCopyEntries_no_proto: "''__proto__'' \<notin> fst ` set (deepCopyEntries kvs)"
  by (induction kvs) (auto split: if_splits)

section \<open>Properties of redaction and unredaction\<close>

lemma maskValue_sentinel: "maskValue v = Inr v' \<Longrightarrow> is_sentinel v'"
  by (auto simp: maskValue_def is_sentinel_def split: sum.splits)

lemma redactField_result:
  "redactField props k v = Inr v' \<Longrightarrow> v' = v \<or> is_sentinel v'"
  by (auto simp: redactField_def split: if_splits option.splits sum.splits
        dest: maskValue_sentinel)

lemma redactField_plain:
  "\<not> crossCutting k \<Longrightarrow> \<not> passwordMarked props k \<Longrightarrow> redactField props k v = Inr v"
  by (auto simp: redactField_def crossCutting_def passwordMarked_def split: option.splits)

lemma maskValue_returns: "\<not> isl (js_toString v) \<Longrightarrow> \<exists>v'. maskValue v = Inr v'"
  by (cases "js_toString v") (auto simp: maskValue_def)

lemma js_toString_string: "is_string v \<Longrightarrow> \<not> isl (js_toString v)"
  by (cases v) auto

lemma startsWith_string: "is_string v \<Longrightarrow> \<exists>b. startsWith v p = Inr b"
  by (cases v) auto

lemma redactField_returns:
  assumes "if crossCutting k then \<not> isl (js_toString v)
           else if passwordMarked props k then is_string v else True"
  shows "\<exists>v'. redactField props k v = Inr v'"
proof (cases "crossCutting k")
  case True
  with assms show ?thesis
    by (auto simp: redactField_def crossCutting_def dest: maskValue_returns)
next
  case False
  show ?thesis
  proof (cases "passwordMarked props k")
    case pm: True
    with False assms have s: "is_string v" by simp
    from startsWith_string [OF s] obtain b where b: "startsWith v ''={{'' = Inr b" by blast
    from maskValue_returns [OF js_toString_string [OF s]] obtain m where m: "maskValue v = Inr m"
      by blast
    from False pm b m show ?thesis
      by (auto simp: redactField_def crossCutting_def passwordMarked_def split: option.splits)
  next
    case pm: False
    from redactField_plain [OF False pm] show ?thesis by blast
  qed
qed

lemma redactEntries_returns:
  "redactable props data \<Longrightarrow> \<exists>R. redactEntries props data = Inr R"
proof (induction data)
  case Nil
  then show ?case by simp
next
  case (Cons kv data)
  obtain k v where kv: "kv = (k, v)" by (cases kv)
  from Cons.prems kv have f: "if crossCutting k then \<not> isl (js_toString v)
           else if passwordMarked props k then is_string v else True"
    and r: "redactable props data"
    by (simp_all add: redactable_def)
  from redactField_returns [OF f] obtain v' where v': "redactField props k v = Inr v'" by blast
  from Cons.IH [OF r] obtain R where R: "redactEntries props data = Inr R" by blast
  from kv v' R show ?case by simp
qed

lemma redactEntries_keys:
  "redactEntries props data = Inr R \<Longrightarrow> map fst R = map fst data"
  by (induction data arbitrary: R) (auto split: sum.splits)

lemma redactEntries_plain:
  "redactEntries props data = Inr R \<Longrightarrow> \<not> crossCutting k \<Longrightarrow> \<not> passwordMarked props k
   \<Longrightarrow> map_of R k = map_of data k"
  by (induction data arbitrary: R) (auto split: sum.splits simp: redactField_plain)

lemma restoreEntries_back:
  "redactEntries props data = Inr R \<Longrightarrow> wf_entries data
   \<Longrightarrow> \<forall>(k, v) \<in> set data. has_prop r k \<and> get_prop r k = v
   \<Longrightarrow> restoreEntries R r = data"
proof (induction data arbitrary: R)
  case Nil
  then show ?case by simp
next
  case (Cons kv data)
  obtain k v where kv: "kv = (k, v)" by (cases kv)
  from Cons.prems(1) kv obtain v' R' where
    v': "redactField props k v = Inr v'" and R': "redactEntries props data = Inr R'"
    and R: "R = (k, v') # R'"
    by (auto split: sum.splits)
  from Cons.prems(2) kv have wfv: "wf_val v" and wfd: "wf_entries data" by simp_all
  from Cons.prems(3) kv have hk: "has_prop r k" "get_prop r k = v"
    and hd: "\<forall>(k, v) \<in> set data. has_prop r k \<and> get_prop r k = v" by auto
  from Cons.IH [OF R' wfd hd] have t: "restoreEntries R' r = data" .
  from redactField_result [OF v'] have "v' = v \<or> is_sentinel v'" .
  then have "restoreEntries [(k, v')] r = [(k, v)]"
  proof
    assume "v' = v"
    with hk wfv restore_same_aux(1) [of v v] show ?thesis by auto
  next
    assume "is_sentinel v'"
    with hk show ?thesis by (auto simp: is_sentinel_def)
  qed
  with t R kv show ?case by simp
qed

lemma redactEntries_plain_result:
  "redactEntries props data = Inr R \<Longrightarrow> plain_entries data \<Longrightarrow> plain_entries R"
proof (induction data arbitrary: R)
  case Nil
  then show ?case by simp
next
  case (Cons kv data)
  obtain k v where kv: "kv = (k, v)" by (cases kv)
  from Cons.prems(1) kv obtain v' R' where
    v': "redactField props k v = Inr v'" and R': "redactEntries props data = Inr R'"
    and R: "R = (k, v') # R'"
    by (auto split: sum.splits)
  from Cons.prems(2) kv have p: "k \<noteq> ''__proto__''" "plain_val v" "plain_entries data"
    by simp_all
  from redactField_result [OF v'] p(2) have "plain_val v'"
    by (auto simp: is_sentinel_def)
  with Cons.IH [OF R' p(3)] p(1) R show ?case by simp
qed

lemma unredact_redactEntries:
  assumes R: "redactEntries props data = Inr R" and wf: "wf_entries data"
    and pl: "plain_entries data"
  shows "unredact R data = data"
proof -
  from redactEntries_plain_result [OF R pl] have "deepCopyEntries R = R"
    by (simp add: deepCopy_plain)
  moreover have "\<forall>(k, v) \<in> set data. has_prop (JObj data) k \<and> get_prop (JObj data) k = v"
    using wf by (auto simp: get_prop_object has_prop_object)
  with R wf have "restoreEntries R (JObj data) = data"
    by (rule restoreEntries_back)
  ultimately show ?thesis by (simp add: unredact_def)
qed

lemma redactEntries_nth:
  "redactEntries props data = Inr R \<Longrightarrow> i < length data \<Longrightarrow> data ! i = (k, v)
   \<Longrightarrow> \<exists>v'. redactField props k v = Inr v' \<and> R ! i = (k, v')"
proof (induction data arbitrary: R i)
  case Nil
  then show ?case by simp
next
  case (Cons kv data)
  obtain k0 v0 where kv: "kv = (k0, v0)" by (cases kv)
  from Cons.prems(1) kv obtain v1 R' where
    v1: "redactField props k0 v0 = Inr v1" and R': "redactEntries props data = Inr R'"
    and R: "R = (k0, v1) # R'"
    by (auto split: sum.splits)
  show ?case
  proof (cases i)
    case 0
    with Cons.prems(3) kv v1 R show ?thesis by simp
  next
    case (Suc j)
    with Cons.prems(2,3) have "j < length data" "data ! j = (k, v)" by simp_all
    from Cons.IH [OF R' this] Suc R show ?thesis by simp
  qed
qed

lemma redactField_masks:
  "masks props k v \<Longrightarrow> redactField props k v = Inr v' \<Longrightarrow> maskValue v = Inr v'"
  by (auto simp: masks_def redactField_def crossCutting_def
      split: option.splits if_splits sum.splits)

lemma maskValue_form:
  "maskValue v = Inr v' \<Longrightarrow>
   \<exists>s. js_toString v = Inr s
      \<and> v' = JStr (if s = [] then CREDENTIAL_EMPTY_VALUE else CREDENTIAL_BLANKING_VALUE)"
proof (cases "js_toString v")
  case (Inl e)
  assume "maskValue v = Inr v'"
  with Inl show ?thesis by (simp add: maskValue_def)
next
  case (Inr s)
  assume "maskValue v = Inr v'"
  with Inr have "v' = JStr (if s = [] then CREDENTIAL_EMPTY_VALUE else CREDENTIAL_BLANKING_VALUE)"
    by (cases s) (simp_all add: maskValue_def)
  with Inr show ?thesis by blast
qed

lemma sentinels_differ: "CREDENTIAL_BLANKING_VALUE \<noteq> CREDENTIAL_EMPTY_VALUE"
  by (simp add: CREDENTIAL_BLANKING_VALUE_def CREDENTIAL_EMPTY_VALUE_def)

subsection \<open>The example type and payloads\<close>

lemma outlook_resolves:
  "getByName exampleTypes (credType outlookCredential) = Inr microsoftOutlookOAuth2Api"
  "getExtendedProps 2 exampleTypes microsoftOutlookOAuth2Api = Some (Inr outlookProps)"
  by (simp_all add: getByName_def exampleTypes_def outlookCredential_def numeral_2_eq_2
      microsoftOutlookOAuth2Api_def oAuth2Api_def outlookProps_def mergeNodeProperties_def)

lemma outlook_redactEntries:
  "redactEntries outlookProps outlookPayload = Inr outlookRedacted"
  by (simp add: outlookProps_def outlookPayload_def outlookRedacted_def redactField_def
      maskValue_def)

lemma numeric_redactEntries:
  "redactEntries outlookProps numericSecretPayload = Inl TypeError"
  by (simp add: outlookProps_def numericSecretPayload_def redactField_def)

lemma example_copies:
  "deepCopyEntries outlookPayload = outlookPayload"
  "deepCopyEntries numericSecretPayload = numericSecretPayload"
  "deepCopyEntries arrayTokenPayload = arrayTokenPayload"
  "deepCopyEntries protoKeyPayload = [(''clientId'', JStr ''abc'')]"
  by (simp_all add: outlookPayload_def numericSecretPayload_def arrayTokenPayload_def
      protoKeyPayload_def)

lemma outlook_redact:
  "redact 2 exampleTypes outlookPayload outlookCredential = Some (Inr outlookRedacted)"
  by (simp add: redact_def outlook_resolves outlook_redactEntries example_copies)

lemma outlook_payload_ok:
  "wf_entries outlookPayload" "plain_entries outlookPayload"
  "redactable outlookProps outlookPayload"
  by (simp_all add: outlookPayload_def redactable_def outlookProps_def crossCutting_def
      passwordMarked_def)

subsection \<open>Round trip\<close>

text \<open>
  C1 (round trip), as the code has it. Let the credential's type resolve to the flattened
  schema \<open>props\<close>, and let the payload be one that \<^verbatim>\<open>JSON.parse\<close> yields, without a
  key \<^verbatim>\<open>__proto__\<close>, on which the loop of \<^verbatim>\<open>redact\<close> throws nothing (every
  password-marked field holds a string, every cross-cutting key a value with a string
  form). Then \<^verbatim>\<open>redact\<close> returns a payload \<open>R\<close> with the same keys,
  \<^verbatim>\<open>unredact(R, P)\<close> is \<open>P\<close> again, field by field, and every field that is neither
  password-marked nor cross-cutting has in \<open>R\<close> the value it has in \<open>P\<close>.
\<close>

theorem redact_roundtrip:
  assumes t: "getByName reg (credType credential) = Inr t"
    and p: "getExtendedProps depth reg t = Some (Inr props)"
    and wf: "wf_entries data"
    and pl: "plain_entries data"
    and ok: "redactable props data"
  shows "\<exists>R. redact depth reg data credential = Some (Inr R)
             \<and> unredact R data = data
             \<and> map fst R = map fst data
             \<and> (\<forall>k. \<not> crossCutting k \<and> \<not> passwordMarked props k \<longrightarrow>
                      map_of R k = map_of data k)"
proof -
  from redactEntries_returns [OF ok] obtain R where R: "redactEntries props data = Inr R"
    by blast
  from pl have c: "deepCopyEntries data = data" by (simp add: deepCopy_plain)
  from t p R c have "redact depth reg data credential = Some (Inr R)"
    by (simp add: redact_def)
  moreover from R wf pl have "unredact R data = data" by (rule unredact_redactEntries)
  moreover from R have "map fst R = map fst data" by (rule redactEntries_keys)
  moreover from R
  have "\<forall>k. \<not> crossCutting k \<and> \<not> passwordMarked props k \<longrightarrow> map_of R k = map_of data k"
    by (blast intro: redactEntries_plain)
  ultimately show ?thesis by blast
qed

text \<open>The scenario of the spec: the client secret and the token data are masked, and
  unredaction against the saved payload brings both back.\<close>

theorem redact_roundtrip_witness:
  "wf_entries outlookPayload \<and> plain_entries outlookPayload
   \<and> redactable outlookProps outlookPayload
   \<and> redact 2 exampleTypes outlookPayload outlookCredential = Some (Inr outlookRedacted)
   \<and> unredact outlookRedacted outlookPayload = outlookPayload"
proof -
  from redact_roundtrip [OF outlook_resolves outlook_payload_ok]
  obtain R where R: "redact 2 exampleTypes outlookPayload outlookCredential = Some (Inr R)"
    and u: "unredact R outlookPayload = outlookPayload" by blast
  from R outlook_redact have "R = outlookRedacted" by simp
  with u outlook_payload_ok outlook_redact show ?thesis by simp
qed

text \<open>A payload of the declared type on which there is no round trip: the password-marked
  field holds a number, \<^verbatim>\<open>startsWith\<close> is not a method of it, and \<^verbatim>\<open>redact\<close>
  throws.\<close>

theorem redact_numeric_secret_throws:
  "redact 2 exampleTypes numericSecretPayload outlookCredential = Some (Inl TypeError)"
  by (simp add: redact_def outlook_resolves numeric_redactEntries example_copies)

text \<open>A key \<^verbatim>\<open>__proto__\<close> does not survive the copy that \<^verbatim>\<open>redact\<close> works on, and
  unredaction does not bring it back.\<close>

lemma proto_key_lost:
  "redact 2 exampleTypes protoKeyPayload outlookCredential
     = Some (Inr [(''clientId'', JStr ''abc'')])
   \<and> unredact [(''clientId'', JStr ''abc'')] protoKeyPayload = [(''clientId'', JStr ''abc'')]"
proof
  show "redact 2 exampleTypes protoKeyPayload outlookCredential
     = Some (Inr [(''clientId'', JStr ''abc'')])"
    by (simp add: redact_def outlook_resolves example_copies outlookProps_def redactField_def)
  show "unredact [(''clientId'', JStr ''abc'')] protoKeyPayload = [(''clientId'', JStr ''abc'')]"
    by (simp add: unredact_def CREDENTIAL_BLANKING_VALUE_def CREDENTIAL_EMPTY_VALUE_def)
qed

subsection \<open>Failing open\<close>

text \<open>
  C3 (fail-open redaction): when the registry does not know the credential's type name,
  \<^verbatim>\<open>redact\<close> returns the payload it was given, whatever the payload and the depth of
  any schema: nothing is masked and nothing is thrown.
\<close>

theorem redact_fails_open:
  "reg (credType credential) = None \<Longrightarrow> redact depth reg data credential = Some (Inr data)"
  by (simp add: redact_def getByName_def)

theorem redact_fails_open_witness:
  "exampleTypes (credType removedCredential) = None
   \<and> redact 2 exampleTypes outlookPayload removedCredential = Some (Inr outlookPayload)"
proof -
  have n: "exampleTypes (credType removedCredential) = None"
    by (simp add: exampleTypes_def removedCredential_def)
  from n redact_fails_open [of exampleTypes removedCredential 2 outlookPayload]
  show ?thesis by simp
qed

subsection \<open>The two sentinels\<close>

text \<open>
  C4 (sentinel distinction), as the code has it. Let the credential's type resolve, and
  let the payload be one that \<^verbatim>\<open>JSON.parse\<close> yields, without a key \<^verbatim>\<open>__proto__\<close>,
  on which the loop of \<^verbatim>\<open>redact\<close> throws nothing. Then \<^verbatim>\<open>redact\<close> returns, and for
  every field it masks (a cross-cutting key, or a password-marked field that is not an
  admitted expression) the result holds the blanking sentinel when the string form of the
  value is not empty and the empty sentinel when it is. So a string is judged by the
  string itself, and an object, a number and a boolean get the blanking sentinel. The two
  sentinels differ.
\<close>

theorem redact_sentinel_distinction:
  assumes t: "getByName reg (credType credential) = Inr t"
    and p: "getExtendedProps depth reg t = Some (Inr props)"
    and pl: "plain_entries data"
    and ok: "redactable props data"
    and i: "i < length data" "data ! i = (k, v)"
    and m: "masks props k v"
  shows "\<exists>R. redact depth reg data credential = Some (Inr R)
           \<and> (\<exists>s. js_toString v = Inr s
                 \<and> R ! i = (k, JStr (if s = [] then CREDENTIAL_EMPTY_VALUE
                                      else CREDENTIAL_BLANKING_VALUE)))
           \<and> (\<forall>s. v = JStr s \<longrightarrow>
                 R ! i = (k, JStr (if s = [] then CREDENTIAL_EMPTY_VALUE
                                   else CREDENTIAL_BLANKING_VALUE)))
           \<and> ((\<exists>kvs. v = JObj kvs) \<or> (\<exists>n. v = JNum n) \<or> (\<exists>b. v = JBool b) \<longrightarrow>
                 R ! i = (k, JStr CREDENTIAL_BLANKING_VALUE))
           \<and> CREDENTIAL_BLANKING_VALUE \<noteq> CREDENTIAL_EMPTY_VALUE"
proof -
  from redactEntries_returns [OF ok] obtain R where R: "redactEntries props data = Inr R"
    by blast
  from pl have "deepCopyEntries data = data" by (simp add: deepCopy_plain)
  with t p R have r: "redact depth reg data credential = Some (Inr R)"
    by (simp add: redact_def)
  from redactEntries_nth [OF R i] obtain v' where
    v': "redactField props k v = Inr v'" and Ri: "R ! i = (k, v')" by blast
  from redactField_masks [OF m v'] have mv: "maskValue v = Inr v'" .
  from maskValue_form [OF mv] obtain s where
    s: "js_toString v = Inr s"
       "v' = JStr (if s = [] then CREDENTIAL_EMPTY_VALUE else CREDENTIAL_BLANKING_VALUE)"
    by blast
  from s Ri have a: "\<exists>s. js_toString v = Inr s
            \<and> R ! i = (k, JStr (if s = [] then CREDENTIAL_EMPTY_VALUE
                                 else CREDENTIAL_BLANKING_VALUE))" by simp
  from s Ri have b: "\<forall>s. v = JStr s \<longrightarrow>
               R ! i = (k, JStr (if s = [] then CREDENTIAL_EMPTY_VALUE
                                 else CREDENTIAL_BLANKING_VALUE))" by auto
  have c: "(\<exists>kvs. v = JObj kvs) \<or> (\<exists>n. v = JNum n) \<or> (\<exists>b. v = JBool b) \<longrightarrow>
                 R ! i = (k, JStr CREDENTIAL_BLANKING_VALUE)"
  proof
    assume "(\<exists>kvs. v = JObj kvs) \<or> (\<exists>n. v = JNum n) \<or> (\<exists>b. v = JBool b)"
    with s(1) have "s \<noteq> []"
      by (auto simp: index_key_nonempty split: if_splits)
    with s(2) Ri show "R ! i = (k, JStr CREDENTIAL_BLANKING_VALUE)" by simp
  qed
  from r a b c sentinels_differ show ?thesis by blast
qed

text \<open>Token data that is an object is masked by the blanking sentinel; a client secret
  that is the empty string by the empty sentinel.\<close>

theorem redact_sentinel_distinction_witness:
  "redact 2 exampleTypes outlookPayload outlookCredential = Some (Inr outlookRedacted)
   \<and> outlookRedacted ! 3 = (''oauthTokenData'', JStr CREDENTIAL_BLANKING_VALUE)
   \<and> redact 2 exampleTypes emptySecretPayload outlookCredential
       = Some (Inr [(''clientSecret'', JStr CREDENTIAL_EMPTY_VALUE),
                    (''csrfSecret'', JStr CREDENTIAL_BLANKING_VALUE)])
   \<and> CREDENTIAL_BLANKING_VALUE \<noteq> CREDENTIAL_EMPTY_VALUE"
proof -
  let ?tok = "JObj [(''access_token'', JStr ''tok'')]"
  have i: "3 < length outlookPayload" "outlookPayload ! 3 = (''oauthTokenData'', ?tok)"
    by (simp_all add: outlookPayload_def)
  have m: "masks outlookProps ''oauthTokenData'' ?tok"
    by (simp add: masks_def crossCutting_def)
  from redact_sentinel_distinction
    [OF outlook_resolves outlook_payload_ok(2,3) i m]
  obtain R where R: "redact 2 exampleTypes outlookPayload outlookCredential = Some (Inr R)"
    and o: "R ! 3 = (''oauthTokenData'', JStr CREDENTIAL_BLANKING_VALUE)"
    and d: "CREDENTIAL_BLANKING_VALUE \<noteq> CREDENTIAL_EMPTY_VALUE"
    by blast
  from R outlook_redact have e: "R = outlookRedacted" by simp
  have pl: "plain_entries emptySecretPayload"
    by (simp add: emptySecretPayload_def)
  have ok: "redactable outlookProps emptySecretPayload"
    by (simp add: redactable_def emptySecretPayload_def outlookProps_def crossCutting_def
        passwordMarked_def)
  have j: "0 < length emptySecretPayload" "emptySecretPayload ! 0 = (''clientSecret'', JStr [])"
    by (simp_all add: emptySecretPayload_def)
  have n: "masks outlookProps ''clientSecret'' (JStr [])"
    by (simp add: masks_def outlookProps_def crossCutting_def)
  from redact_sentinel_distinction [OF outlook_resolves pl ok j n]
  obtain R' where
    R': "redact 2 exampleTypes emptySecretPayload outlookCredential = Some (Inr R')"
    and o': "R' ! 0 = (''clientSecret'', JStr CREDENTIAL_EMPTY_VALUE)"
    by auto
  have "redact 2 exampleTypes emptySecretPayload outlookCredential
       = Some (Inr [(''clientSecret'', JStr CREDENTIAL_EMPTY_VALUE),
                    (''csrfSecret'', JStr CREDENTIAL_BLANKING_VALUE)])"
    by (simp add: redact_def outlook_resolves emptySecretPayload_def outlookProps_def
        redactField_def maskValue_def)
  with R e o d show ?thesis by simp
qed

text \<open>Token data that is an array holding the empty string is not an empty value, and its
  string form is empty: it is masked by the empty sentinel.\<close>

theorem redact_array_token_empty:
  "redact 2 exampleTypes arrayTokenPayload outlookCredential
     = Some (Inr [(''oauthTokenData'', JStr CREDENTIAL_EMPTY_VALUE)])"
  by (simp add: redact_def outlook_resolves example_copies)
     (simp add: arrayTokenPayload_def redactField_def maskValue_def)

subsection \<open>Token data on update\<close>


lemma map_of_set_prop_other: "k' \<noteq> k \<Longrightarrow> map_of (set_prop d k v) k' = map_of d k'"
  by (induction d) auto





subsection \<open>Reading one credential\<close>

lemma restOf_no_data: "(''data'', v) \<notin> set (restOf c)"
  by (simp add: restOf_def entityFields_def)

text \<open>
  C10 (no encrypted blob in the answer of \<^verbatim>\<open>getOne\<close>): when the user sees no sharing of
  the credential, \<^verbatim>\<open>getOne\<close> throws \<^verbatim>\<open>NotFoundError\<close>. When it returns an object,
  a property \<^verbatim>\<open>data\<close> of that object exists only if decrypted data was asked for, and
  then it is the payload that \<^verbatim>\<open>redact\<close> returned for the decrypted data of the shared
  credential; the stored blob, the entity's own \<^verbatim>\<open>data\<close>, is not among the properties.
\<close>

theorem getOne_discloses_no_blob:
  "(getSharing env user credentialId [''credential:read''] = None \<longrightarrow>
      getOne env depth user credentialId includeDecryptedData = Some (Inl NotFoundError))
   \<and> (\<forall>obj v. getOne env depth user credentialId includeDecryptedData = Some (Inr obj)
          \<and> (''data'', v) \<in> set obj \<longrightarrow>
        includeDecryptedData
        \<and> (\<exists>sharing plain d.
              getSharing env user credentialId [''credential:read''] = Some sharing
              \<and> decryptData env (credentials sharing) = Inr plain
              \<and> redact depth (credentialTypes env) plain (credentials sharing) = Some (Inr d)
              \<and> obj = (''data'', FPayload d) # restOf (credentials sharing)
              \<and> v = FPayload d))"
proof (intro conjI allI impI)
  assume "getSharing env user credentialId [''credential:read''] = None"
  then show "getOne env depth user credentialId includeDecryptedData = Some (Inl NotFoundError)"
    by (simp add: getOne_def)
next
  fix obj v
  assume a: "getOne env depth user credentialId includeDecryptedData = Some (Inr obj)
          \<and> (''data'', v) \<in> set obj"
  then have g: "getOne env depth user credentialId includeDecryptedData = Some (Inr obj)"
    and m: "(''data'', v) \<in> set obj" by simp_all
  show "includeDecryptedData"
  proof (rule ccontr)
    assume "\<not> includeDecryptedData"
    with g m show False
      by (auto simp: getOne_def restOf_no_data split: option.splits)
  qed
  then have inc: includeDecryptedData .
  from g inc obtain sharing where
    s: "getSharing env user credentialId [''credential:read''] = Some sharing"
    by (cases "getSharing env user credentialId [''credential:read'']")
       (auto simp: getOne_def)
  from g inc s obtain plain where p: "decryptData env (credentials sharing) = Inr plain"
    by (cases "decryptData env (credentials sharing)") (auto simp: getOne_def)
  from g inc s p obtain d where
    d: "redact depth (credentialTypes env) plain (credentials sharing) = Some (Inr d)"
    and o: "obj = (''data'', FPayload d) # restOf (credentials sharing)"
    by (auto simp: getOne_def split: option.splits sum.splits)
  from o m have "v = FPayload d" by (auto simp: restOf_no_data)
  with s p d o
  show "\<exists>sharing plain d.
              getSharing env user credentialId [''credential:read''] = Some sharing
              \<and> decryptData env (credentials sharing) = Inr plain
              \<and> redact depth (credentialTypes env) plain (credentials sharing) = Some (Inr d)
              \<and> obj = (''data'', FPayload d) # restOf (credentials sharing)
              \<and> v = FPayload d" by blast
qed

lemma exampleServices_fields:
  "credentialTypes exampleServices = exampleTypes"
  "decryptData exampleServices c
     = (if credId c = ''c1'' then Inr outlookPayload else Inl DecryptionError)"
  "findOne exampleServices w
     = (if whereCredentialsId w = ''c1''
          \<and> (wherePersonalOwner w = None \<or> wherePersonalOwner w = Some ''u1'')
        then Some \<lparr>credentialsId = ''c1'', projectId = ''p1'',
                   role = ''credential:owner'', credentials = outlookCredential\<rparr>
        else None)"
  by (simp_all add: exampleServices_def)

lemma alice_sharing:
  "getSharing exampleServices alice ''c1'' [''credential:read'']
     = Some \<lparr>credentialsId = ''c1'', projectId = ''p1'',
              role = ''credential:owner'', credentials = outlookCredential\<rparr>"
  by (simp add: getSharing_def exampleServices_fields alice_def hasGlobalScopes_def Let_def)

lemma bob_sharing:
  "getSharing exampleServices bob ''c1'' [''credential:read''] = None"
  by (simp add: getSharing_def exampleServices_fields bob_def hasGlobalScopes_def Let_def)

lemma alice_getOne:
  "getOne exampleServices 2 alice ''c1'' True
     = Some (Inr ((''data'', FPayload outlookRedacted) # restOf outlookCredential))"
proof -
  have "credId outlookCredential = ''c1''" by (simp add: outlookCredential_def)
  then show ?thesis
    by (simp add: getOne_def alice_sharing exampleServices_fields outlook_redact)
qed

theorem getOne_discloses_no_blob_witness:
  "getOne exampleServices 2 bob ''c1'' True = Some (Inl NotFoundError)
   \<and> getOne exampleServices 2 alice ''c1'' True
       = Some (Inr ((''data'', FPayload outlookRedacted) # restOf outlookCredential))"
proof -
  from getOne_discloses_no_blob [of exampleServices bob "''c1''" 2 True] bob_sharing
  have "getOne exampleServices 2 bob ''c1'' True = Some (Inl NotFoundError)" by blast
  then show ?thesis using alice_getOne by (rule conjI)
qed

subsection \<open>Usable credentials\<close>

lemma credId_addScopes: "credId (addScopes env c user rels) = credId c"
  by (simp add: addScopes_def)

lemma usable_ids:
  "map ucId (getCredentialsAUserCanUseInAWorkflow env user ctx)
     = filter (\<lambda>i. i \<in> set (allCredentialsForContext env ctx))
         (map credId (findCredentialsForUser env user [''credential:read'']))"
  by (simp add: getCredentialsAUserCanUseInAWorkflow_def Let_def comp_def credId_addScopes
      filter_map)

text \<open>
  C5 (intersection): the ids that \<^verbatim>\<open>getCredentialsAUserCanUseInAWorkflow\<close> returns are
  ids of credentials the user reads through the scope \<^verbatim>\<open>credential:read\<close>, and ids of
  credentials of the context; the credentials of a workflow or a project are all personal
  credentials when its personal owner holds the global read scope, and those of the
  workflow or project itself otherwise.
\<close>

theorem usable_credentials_intersection:
  "set (map ucId (getCredentialsAUserCanUseInAWorkflow env user ctx))
     \<subseteq> set (map credId (findCredentialsForUser env user [''credential:read'']))
   \<and> set (map ucId (getCredentialsAUserCanUseInAWorkflow env user ctx))
     \<subseteq> set (allCredentialsForContext env ctx)
   \<and> allCredentialsForContext env (WorkflowId w)
       = map credId
           (case findPersonalOwnerForWorkflow env w of
              None \<Rightarrow> findAllCredentialsForWorkflow env w
            | Some owner \<Rightarrow>
                if hasGlobalScope owner ''credential:read'' then findAllPersonalCredentials env
                else findAllCredentialsForWorkflow env w)
   \<and> allCredentialsForContext env (ProjectId p)
       = map credId
           (case findPersonalOwnerForProject env p of
              None \<Rightarrow> findAllCredentialsForProject env p
            | Some owner \<Rightarrow>
                if hasGlobalScope owner ''credential:read'' then findAllPersonalCredentials env
                else findAllCredentialsForProject env p)"
proof (intro conjI)
  show "set (map ucId (getCredentialsAUserCanUseInAWorkflow env user ctx))
     \<subseteq> set (map credId (findCredentialsForUser env user [''credential:read'']))"
    unfolding usable_ids by auto
  show "set (map ucId (getCredentialsAUserCanUseInAWorkflow env user ctx))
     \<subseteq> set (allCredentialsForContext env ctx)"
    unfolding usable_ids by auto
  show "allCredentialsForContext env (WorkflowId w)
       = map credId
           (case findPersonalOwnerForWorkflow env w of
              None \<Rightarrow> findAllCredentialsForWorkflow env w
            | Some owner \<Rightarrow>
                if hasGlobalScope owner ''credential:read'' then findAllPersonalCredentials env
                else findAllCredentialsForWorkflow env w)"
    by (simp add: allCredentialsForContext_def findAllCredentialIdsForWorkflow_def)
  show "allCredentialsForContext env (ProjectId p)
       = map credId
           (case findPersonalOwnerForProject env p of
              None \<Rightarrow> findAllCredentialsForProject env p
            | Some owner \<Rightarrow>
                if hasGlobalScope owner ''credential:read'' then findAllPersonalCredentials env
                else findAllCredentialsForProject env p)"
    by (simp add: allCredentialsForContext_def findAllCredentialIdsForProject_def)
qed

lemma exampleServices_usage:
  "getProjectRelationsForUser exampleServices u
     = (if userId u = ''u1''
        then [\<lparr>relProjectId = ''p1'', relUserId = ''u1'', relRole = ''project:personalOwner''\<rparr>]
        else [])"
  "findCredentialsForUser exampleServices u ss
     = (if userId u = ''u1'' then [outlookCredential, bobCredential] else [])"
  "findPersonalOwnerForWorkflow exampleServices w = (if w = ''w1'' then Some alice else None)"
  "findAllPersonalCredentials exampleServices = [outlookCredential, bobCredential]"
  "findAllCredentialsForWorkflow exampleServices w = (if w = ''w1'' then [outlookCredential] else [])"
  "combineResourceScopes exampleServices c u rels = [''credential:read'']"
  by (simp_all add: exampleServices_def)

lemma alice_usable:
  "getCredentialsAUserCanUseInAWorkflow exampleServices alice (WorkflowId ''w1'')
     = [\<lparr>ucId = ''c1'', ucName = ''Outlook'', ucType = ''microsoftOutlookOAuth2Api'',
         ucScopes = [''credential:read''], ucIsManaged = False\<rparr>]"
  by (simp add: getCredentialsAUserCanUseInAWorkflow_def allCredentialsForContext_def
      findAllCredentialIdsForWorkflow_def exampleServices_usage alice_def hasGlobalScope_def
      addScopes_def outlookCredential_def bobCredential_def Let_def)

theorem usable_credentials_intersection_witness:
  "set (map ucId (getCredentialsAUserCanUseInAWorkflow exampleServices alice (WorkflowId ''w1'')))
     \<subseteq> set (map credId (findCredentialsForUser exampleServices alice [''credential:read'']))
   \<and> getCredentialsAUserCanUseInAWorkflow exampleServices alice (WorkflowId ''w1'')
     = [\<lparr>ucId = ''c1'', ucName = ''Outlook'', ucType = ''microsoftOutlookOAuth2Api'',
         ucScopes = [''credential:read''], ucIsManaged = False\<rparr>]"
proof -
  from usable_credentials_intersection [of exampleServices alice "WorkflowId ''w1''"]
  have "set (map ucId (getCredentialsAUserCanUseInAWorkflow exampleServices alice (WorkflowId ''w1'')))
     \<subseteq> set (map credId (findCredentialsForUser exampleServices alice [''credential:read'']))"
    by (rule conjunct1)
  then show ?thesis using alice_usable by (rule conjI)
qed

subsection \<open>The project filter of the listing\<close>

lemma filterProjectIdOf_set [simp]:
  "listQueryOptions options = Some lq \<Longrightarrow> lqFilter lq = Some f \<Longrightarrow>
   filterProjectIdOf (setFilterProjectId options v) = v"
  by (simp add: filterProjectIdOf_def setFilterProjectId_def)

lemma decorate_setFilterProjectId:
  "decorate env user (setFilterProjectId options v) = decorate env user options"
proof -
  have s: "filterSharedProjectIdOf (setFilterProjectId options v) = filterSharedProjectIdOf options"
    by (auto simp: filterSharedProjectIdOf_def setFilterProjectId_def split: option.splits)
  have i: "includeScopes (setFilterProjectId options v) = includeScopes options"
    by (simp add: setFilterProjectId_def)
  show ?thesis by (intro ext) (simp add: decorate_def s i)
qed

lemma listQueryOptions_set:
  "listQueryOptions options = Some lq \<Longrightarrow> lqFilter lq = Some f \<Longrightarrow>
   listQueryOptions (setFilterProjectId options v)
     = Some (lq\<lparr>lqFilter := Some (f\<lparr>filterProjectId := v\<rparr>)\<rparr>)"
  by (simp add: setFilterProjectId_def)

text \<open>
  C9 (personal-project filter): a caller without the global scope \<^verbatim>\<open>credential:list\<close>
  filters by a project id that resolves to a personal project. Then the query that
  \<^verbatim>\<open>getMany\<close> sends to the repository carries the id of the caller's own personal
  project in place of the requested one, together with the ids of the credentials the
  caller can read, and the list returned is the decorated result of that query.
\<close>

theorem getMany_personal_project_rewrite:
  assumes nolist: "\<not> hasGlobalScope user ''credential:list''"
    and lq: "listQueryOptions options = Some lq"
    and f: "lqFilter lq = Some f"
    and pid: "filterProjectId f = Some pid"
    and proj: "getProject env pid = Some project"
    and personal: "projType project = ''personal''"
    and own: "getPersonalProject env user = Some own"
  shows "getMany env user options
           = decorate env user options (lqSelect lq = None)
               (if present (includeScopes options) then getProjectRelationsForUser env user
                else [])
               (findMany env
                  (Some (lq\<lparr>lqFilter := Some (f\<lparr>filterProjectId := Some (projId own)\<rparr>)\<rparr>))
                  (Some (getCredentialIdsByUserAndRole env [userId user]
                           [''credential:read''])))"
proof -
  from lq f pid have fp: "filterProjectIdOf options = Some pid"
    by (simp add: filterProjectIdOf_def)
  from nolist lq fp proj personal own show ?thesis
    by (simp add: getMany_def Let_def decorate_setFilterProjectId
        listQueryOptions_set [OF lq f])
qed

lemma exampleServices_listing:
  "getProject exampleServices ''p2'' = Some bobProject"
  "getPersonalProject exampleServices alice = Some aliceProject"
  "getCredentialIdsByUserAndRole exampleServices [userId alice] ss = [''c1'', ''c3'']"
  "addOwnedByAndSharedWith exampleServices c = c"
  by (simp_all add: exampleServices_def alice_def)

lemma exampleServices_findMany:
  "findMany exampleServices
     (Some \<lparr>lqFilter = Some \<lparr>filterProjectId = Some ''p1'', filterSharedProjectId = None\<rparr>,
            lqSelect = None\<rparr>)
     (Some [''c1'', ''c3'']) = [outlookCredential]"
  by (simp add: exampleServices_def outlookCredential_def bobCredential_def)

text \<open>Alice asks for the credentials of Bob's personal project and is given those of her
  own.\<close>

theorem getMany_personal_project_rewrite_witness:
  "\<not> hasGlobalScope alice ''credential:list''
   \<and> getProject exampleServices ''p2'' = Some bobProject
   \<and> getMany exampleServices alice bobProjectListing = [outlookCredential]"
proof -
  have nolist: "\<not> hasGlobalScope alice ''credential:list''"
    by (simp add: hasGlobalScope_def alice_def)
  let ?f = "\<lparr>filterProjectId = Some ''p2'', filterSharedProjectId = None\<rparr>"
  let ?lq = "\<lparr>lqFilter = Some ?f, lqSelect = None\<rparr>"
  have lq: "listQueryOptions bobProjectListing = Some ?lq"
    by (simp add: bobProjectListing_def)
  have inc: "includeScopes bobProjectListing = None"
    by (simp add: bobProjectListing_def)
  have f: "lqFilter ?lq = Some ?f" by simp
  have pid: "filterProjectId ?f = Some ''p2''" by simp
  have personal: "projType bobProject = ''personal''" by (simp add: bobProject_def)
  have d: "decorate exampleServices alice bobProjectListing True [] [outlookCredential]
             = [outlookCredential]"
    by (simp add: decorate_def bobProjectListing_def present_def filterSharedProjectIdOf_def
        exampleServices_listing)
  from getMany_personal_project_rewrite
    [OF nolist lq f pid exampleServices_listing(1) personal exampleServices_listing(2)]
  have "getMany exampleServices alice bobProjectListing = [outlookCredential]"
    by (simp add: exampleServices_listing exampleServices_findMany aliceProject_def d
        inc present_def)
  with nolist exampleServices_listing(1) show ?thesis by simp
qed

section \<open>Properties of the transfer\<close>

lemma map_rowKey_upsertRow:
  "map rowKey (upsertRow r tbl)
     = (if rowKey r \<in> set (map rowKey tbl) then map rowKey tbl else map rowKey tbl @ [rowKey r])"
  by (induction tbl) (auto simp: upsertRow_def)

lemma primaryKey_upsertRow: "primaryKey tbl \<Longrightarrow> primaryKey (upsertRow r tbl)"
  by (simp add: primaryKey_def map_rowKey_upsertRow)

lemma set_upsertRow:
  "set (upsertRow r tbl) = {x \<in> set tbl. rowKey x \<noteq> rowKey r} \<union> {r}"
  by (auto simp: upsertRow_def) (metis imageI)

lemma primaryKey_makeOwner: "primaryKey tbl \<Longrightarrow> primaryKey (makeOwner ids p tbl)"
  unfolding makeOwner_def
  by (induction ids arbitrary: tbl) (simp_all add: primaryKey_upsertRow)

lemma set_makeOwner:
  "set (makeOwner ids p tbl)
     = {x \<in> set tbl. \<not> (projectId x = p \<and> credentialsId x \<in> set ids)}
       \<union> (\<lambda>c. ownerRow c p) ` set ids"
  unfolding makeOwner_def
proof (induction ids arbitrary: tbl)
  case Nil
  then show ?case by simp
next
  case (Cons c ids)
  show ?case
    by (simp add: Cons.IH set_upsertRow) (auto simp: rowKey_def ownerRow_def)
qed

lemma primaryKey_deleteByIds: "primaryKey tbl \<Longrightarrow> primaryKey (deleteByIds ids p tbl)"
  by (simp add: primaryKey_def deleteByIds_def distinct_map_filter)

lemma primaryKey_distinct: "primaryKey tbl \<Longrightarrow> distinct tbl"
  by (simp add: primaryKey_def distinct_map)

lemma primaryKey_same_key:
  "primaryKey tbl \<Longrightarrow> x \<in> set tbl \<Longrightarrow> y \<in> set tbl \<Longrightarrow>
   credentialsId x = credentialsId y \<Longrightarrow> projectId x = projectId y \<Longrightarrow> x = y"
  by (auto simp: primaryKey_def distinct_map inj_on_def rowKey_def)

lemma filter_findByProjects:
  "filter (\<lambda>sc. projectId sc = a) (findByProjects tbl [a, b]) = filter (\<lambda>sc. projectId sc = a) tbl"
  "filter (\<lambda>sc. projectId sc = b) (findByProjects tbl [a, b]) = filter (\<lambda>sc. projectId sc = b) tbl"
  by (auto simp: findByProjects_def intro: filter_cong)

lemma transferAll_unfold:
  "transferAll a b tbl
     = insertRows (copiedRows a b tbl)
         (deleteByIds (ownedBy a tbl) a (makeOwner (ownedBy a tbl) b tbl))"
proof -
  have o: "map credentialsId
             (filter (\<lambda>sc. role sc = ''credential:owner'') (filter (\<lambda>sc. projectId sc = a) tbl))
           = ownedBy a tbl"
    by (simp add: ownedBy_def conj_commute)
  have "filter (\<lambda>sc. role sc \<noteq> ''credential:owner''
                        \<and> credentialsId sc \<notin> set (map credentialsId (filter (\<lambda>sc. projectId sc = b) tbl)))
              (filter (\<lambda>sc. projectId sc = a) tbl)
        = filter (\<lambda>sc. projectId sc = a \<and> role sc \<noteq> ''credential:owner''
                     \<and> credentialsId sc \<notin> credentialsId ` {t \<in> set tbl. projectId t = b}) tbl"
    by (auto intro: filter_cong)
  then have c: "map (\<lambda>sc. \<lparr>credentialsId = credentialsId sc, projectId = b, role = role sc\<rparr>)
             (filter (\<lambda>sc. role sc \<noteq> ''credential:owner''
                        \<and> credentialsId sc \<notin> set (map credentialsId (filter (\<lambda>sc. projectId sc = b) tbl)))
              (filter (\<lambda>sc. projectId sc = a) tbl))
           = copiedRows a b tbl"
    by (simp only: copiedRows_def)
  show ?thesis
    by (simp only: transferAll_def Let_def filter_findByProjects o c)
qed

lemma set_ownedBy:
  "set (ownedBy p tbl)
     = credentialsId ` {sc \<in> set tbl. projectId sc = p \<and> role sc = ''credential:owner''}"
  by (auto simp: ownedBy_def)

lemma set_copiedRows:
  "set (copiedRows a b tbl)
     = (\<lambda>sc. \<lparr>credentialsId = credentialsId sc, projectId = b, role = role sc\<rparr>) `
         {sc \<in> set tbl. projectId sc = a \<and> role sc \<noteq> ''credential:owner''
            \<and> credentialsId sc \<notin> credentialsId ` {t \<in> set tbl. projectId t = b}}"
  by (simp add: copiedRows_def)

lemma set_after_delete:
  "set (deleteByIds (ownedBy a tbl) a (makeOwner (ownedBy a tbl) b tbl))
     = {x \<in> set tbl. \<not> (projectId x = b \<and> credentialsId x \<in> set (ownedBy a tbl))
                   \<and> \<not> (projectId x = a \<and> credentialsId x \<in> set (ownedBy a tbl))}
       \<union> {x. a \<noteq> b \<and> x \<in> (\<lambda>c. ownerRow c b) ` set (ownedBy a tbl)}"
  by (auto simp: deleteByIds_def set_makeOwner ownerRow_def)

lemma distinct_copied_keys:
  assumes pk: "primaryKey tbl"
  shows "distinct (map rowKey (copiedRows a b tbl))"
proof -
  let ?P = "\<lambda>sc. projectId sc = a \<and> role sc \<noteq> ''credential:owner''
                     \<and> credentialsId sc \<notin> credentialsId ` {t \<in> set tbl. projectId t = b}"
  have "map rowKey (copiedRows a b tbl) = map (\<lambda>sc. (credentialsId sc, b)) (filter ?P tbl)"
    by (simp add: copiedRows_def rowKey_def comp_def)
  moreover have "distinct (map (\<lambda>sc. (credentialsId sc, b)) (filter ?P tbl))"
  proof (rule distinct_map [THEN iffD2], intro conjI)
    from pk show "distinct (filter ?P tbl)"
      by (simp add: primaryKey_distinct)
    show "inj_on (\<lambda>sc. (credentialsId sc, b)) (set (filter ?P tbl))"
      by (rule inj_onI) (auto intro: primaryKey_same_key [OF pk])
  qed
  ultimately show ?thesis by simp
qed

lemma copied_keys_fresh:
  assumes pk: "primaryKey tbl"
  shows "set (map rowKey (deleteByIds (ownedBy a tbl) a (makeOwner (ownedBy a tbl) b tbl)))
           \<inter> set (map rowKey (copiedRows a b tbl)) = {}"
proof (rule ccontr)
  assume "\<not> ?thesis"
  then obtain k where
    "k \<in> rowKey ` set (deleteByIds (ownedBy a tbl) a (makeOwner (ownedBy a tbl) b tbl))"
    "k \<in> rowKey ` set (copiedRows a b tbl)"
    by auto
  then obtain x y where
    x: "x \<in> set (deleteByIds (ownedBy a tbl) a (makeOwner (ownedBy a tbl) b tbl))"
    and y: "y \<in> set (copiedRows a b tbl)" and k: "rowKey x = rowKey y"
    by (metis imageE)
  from y obtain sc where sc: "sc \<in> set tbl" "projectId sc = a" "role sc \<noteq> ''credential:owner''"
    "credentialsId sc \<notin> credentialsId ` {t \<in> set tbl. projectId t = b}"
    and ysc: "y = \<lparr>credentialsId = credentialsId sc, projectId = b, role = role sc\<rparr>"
    by (auto simp: set_copiedRows)
  from k ysc have kx: "credentialsId x = credentialsId sc" "projectId x = b"
    by (simp_all add: rowKey_def)
  from x have "x \<in> set tbl \<or> x \<in> (\<lambda>c. ownerRow c b) ` set (ownedBy a tbl)"
    by (auto simp: set_after_delete)
  then show False
  proof
    assume "x \<in> set tbl"
    with kx have "credentialsId sc \<in> credentialsId ` {t \<in> set tbl. projectId t = b}"
      by (metis (mono_tags, lifting) imageI mem_Collect_eq)
    with sc(4) show False by simp
  next
    assume "x \<in> (\<lambda>c. ownerRow c b) ` set (ownedBy a tbl)"
    then obtain c where c: "c \<in> set (ownedBy a tbl)" "x = ownerRow c b" by blast
    from c(2) have "credentialsId x = c" by (simp add: ownerRow_def)
    with kx c(1) have "credentialsId sc \<in> set (ownedBy a tbl)" by simp
    then obtain z where z: "z \<in> set tbl" "projectId z = a" "role z = ''credential:owner''"
      "credentialsId z = credentialsId sc"
      by (auto simp: set_ownedBy)
    from primaryKey_same_key [OF pk z(1) sc(1)] z sc have "z = sc" by simp
    with z(3) sc(3) show False by simp
  qed
qed

lemma transferAll_returns:
  assumes pk: "primaryKey tbl"
  shows "transferAll a b tbl
           = Inr (deleteByIds (ownedBy a tbl) a (makeOwner (ownedBy a tbl) b tbl)
                  @ copiedRows a b tbl)"
    and "primaryKey (deleteByIds (ownedBy a tbl) a (makeOwner (ownedBy a tbl) b tbl)
                  @ copiedRows a b tbl)"
proof -
  from pk have "primaryKey (deleteByIds (ownedBy a tbl) a (makeOwner (ownedBy a tbl) b tbl))"
    by (intro primaryKey_deleteByIds primaryKey_makeOwner)
  with distinct_copied_keys [OF pk] copied_keys_fresh [OF pk]
  have d: "distinct (map rowKey (deleteByIds (ownedBy a tbl) a (makeOwner (ownedBy a tbl) b tbl)
                    @ copiedRows a b tbl))"
    by (simp add: primaryKey_def)
  then show "transferAll a b tbl
           = Inr (deleteByIds (ownedBy a tbl) a (makeOwner (ownedBy a tbl) b tbl)
                  @ copiedRows a b tbl)"
    by (simp add: transferAll_unfold insertRows_def)
  from d show "primaryKey (deleteByIds (ownedBy a tbl) a (makeOwner (ownedBy a tbl) b tbl)
                  @ copiedRows a b tbl)"
    by (simp only: primaryKey_def)
qed

lemma transferAll_primaryKey:
  "primaryKey tbl \<Longrightarrow> transferAll a b tbl = Inr tbl' \<Longrightarrow> primaryKey tbl'"
  using transferAll_returns [of tbl a b] by simp

lemma transferAll_set:
  assumes pk: "primaryKey tbl" and t: "transferAll a b tbl = Inr tbl'"
  shows "set tbl'
     = {x \<in> set tbl. \<not> (projectId x = b \<and> credentialsId x \<in> set (ownedBy a tbl))
                   \<and> \<not> (projectId x = a \<and> credentialsId x \<in> set (ownedBy a tbl))}
       \<union> {x. a \<noteq> b \<and> x \<in> (\<lambda>c. ownerRow c b) ` set (ownedBy a tbl)}
       \<union> set (copiedRows a b tbl)"
proof -
  from t transferAll_returns(1) [OF pk, of a b]
  have "tbl' = deleteByIds (ownedBy a tbl) a (makeOwner (ownedBy a tbl) b tbl) @ copiedRows a b tbl"
    by simp
  then show ?thesis by (simp add: set_after_delete)
qed

lemma owned_has_owner_row:
  "c \<in> set (ownedBy a tbl) \<Longrightarrow>
   \<exists>z \<in> set tbl. projectId z = a \<and> role z = ''credential:owner'' \<and> credentialsId z = c"
  by (auto simp: set_ownedBy)

lemma owner_row_owned:
  "z \<in> set tbl \<Longrightarrow> projectId z = a \<Longrightarrow> role z = ''credential:owner'' \<Longrightarrow>
   credentialsId z \<in> set (ownedBy a tbl)"
  by (auto simp: set_ownedBy)

lemma nonowner_not_owned:
  assumes pk: "primaryKey tbl"
    and x: "x \<in> set tbl" "projectId x = a" "role x \<noteq> ''credential:owner''"
  shows "credentialsId x \<notin> set (ownedBy a tbl)"
proof
  assume "credentialsId x \<in> set (ownedBy a tbl)"
  from owned_has_owner_row [OF this] obtain z where
    z: "z \<in> set tbl" "projectId z = a" "role z = ''credential:owner''"
       "credentialsId z = credentialsId x" by blast
  from primaryKey_same_key [OF pk z(1) x(1)] z x have "z = x" by simp
  with z(3) x(3) show False by simp
qed

lemma copied_row_facts:
  "y \<in> set (copiedRows a b tbl) \<Longrightarrow>
   projectId y = b \<and> role y \<noteq> ''credential:owner''
   \<and> (\<exists>sc \<in> set tbl. projectId sc = a \<and> role sc = role y \<and> credentialsId sc = credentialsId y)
   \<and> credentialsId y \<notin> credentialsId ` {t \<in> set tbl. projectId t = b}"
  by (auto simp: set_copiedRows)

lemma transferAll_mem:
  assumes pk: "primaryKey tbl" and t: "transferAll a b tbl = Inr tbl'"
  shows "x \<in> set tbl' \<longleftrightarrow>
           (x \<in> set tbl \<and> \<not> (projectId x = b \<and> credentialsId x \<in> set (ownedBy a tbl))
                        \<and> \<not> (projectId x = a \<and> credentialsId x \<in> set (ownedBy a tbl)))
           \<or> (a \<noteq> b \<and> credentialsId x \<in> set (ownedBy a tbl) \<and> x = ownerRow (credentialsId x) b)
           \<or> x \<in> set (copiedRows a b tbl)"
proof -
  have "x \<in> (\<lambda>c. ownerRow c b) ` set (ownedBy a tbl)
          \<longleftrightarrow> credentialsId x \<in> set (ownedBy a tbl) \<and> x = ownerRow (credentialsId x) b"
  proof
    assume "x \<in> (\<lambda>c. ownerRow c b) ` set (ownedBy a tbl)"
    then obtain c where c: "c \<in> set (ownedBy a tbl)" "x = ownerRow c b" by blast
    from c(2) have "credentialsId x = c" by (simp add: ownerRow_def)
    with c show "credentialsId x \<in> set (ownedBy a tbl) \<and> x = ownerRow (credentialsId x) b"
      by simp
  next
    assume "credentialsId x \<in> set (ownedBy a tbl) \<and> x = ownerRow (credentialsId x) b"
    then show "x \<in> (\<lambda>c. ownerRow c b) ` set (ownedBy a tbl)" by (metis imageI)
  qed
  then show ?thesis by (simp add: transferAll_set [OF pk t])
qed

subsection \<open>The example tables\<close>

lemma scenario_transfer: "transferAll ''pA'' ''pB'' scenarioTable = Inr scenarioResult"
  by code_simp

lemma shared_transfer: "transferAll ''pA'' ''pB'' sharedTable = Inr sharedResult"
  by code_simp

lemma example_tables_wf:
  "primaryKey scenarioTable" "singleOwner scenarioTable" "primaryKey sharedTable"
  by (simp_all add: primaryKey_def singleOwner_def scenarioTable_def sharedTable_def rowKey_def)

subsection \<open>The source project\<close>

text \<open>The rows of the source project after the transfer.\<close>

lemma transferAll_source_set:
  assumes pk: "primaryKey tbl" and t: "transferAll a b tbl = Inr tbl'"
  shows "{x \<in> set tbl'. projectId x = a}
           = {x \<in> set tbl. projectId x = a \<and> role x \<noteq> ''credential:owner''}"
proof (intro set_eqI iffI)
  fix x
  assume "x \<in> {x \<in> set tbl'. projectId x = a}"
  then have x: "x \<in> set tbl'" "projectId x = a" by simp_all
  from x(1) have "(x \<in> set tbl \<and> \<not> (projectId x = a \<and> credentialsId x \<in> set (ownedBy a tbl)))
      \<or> (a \<noteq> b \<and> x = ownerRow (credentialsId x) b)
      \<or> x \<in> set (copiedRows a b tbl)"
    by (simp add: transferAll_mem [OF pk t]) blast
  then have "x \<in> set tbl \<and> role x \<noteq> ''credential:owner''"
  proof (elim disjE conjE)
    assume i: "x \<in> set tbl" "\<not> (projectId x = a \<and> credentialsId x \<in> set (ownedBy a tbl))"
    from i(2) x(2) have "credentialsId x \<notin> set (ownedBy a tbl)" by simp
    with owner_row_owned [OF i(1) x(2)] have "role x \<noteq> ''credential:owner''" by blast
    with i(1) show ?thesis by simp
  next
    assume ab: "a \<noteq> b" and "x = ownerRow (credentialsId x) b"
    then have "projectId x = b" by (metis ownerRow_def SharedCredentials.select_convs(2))
    with x(2) ab show ?thesis by simp
  next
    assume c: "x \<in> set (copiedRows a b tbl)"
    from copied_row_facts [OF c] obtain sc where
      f: "projectId x = b" "role x \<noteq> ''credential:owner''"
         "sc \<in> set tbl" "projectId sc = a" "credentialsId sc = credentialsId x"
         "credentialsId x \<notin> credentialsId ` {t \<in> set tbl. projectId t = b}"
      by blast
    from f(1) x(2) have ab: "a = b" by simp
    from f(3,4) ab have "credentialsId sc \<in> credentialsId ` {t \<in> set tbl. projectId t = b}"
      by simp
    with f(5,6) show ?thesis by simp
  qed
  with x(2) show "x \<in> {x \<in> set tbl. projectId x = a \<and> role x \<noteq> ''credential:owner''}" by simp
next
  fix x
  assume "x \<in> {x \<in> set tbl. projectId x = a \<and> role x \<noteq> ''credential:owner''}"
  then have x: "x \<in> set tbl" "projectId x = a" "role x \<noteq> ''credential:owner''" by simp_all
  from nonowner_not_owned [OF pk x] have n: "credentialsId x \<notin> set (ownedBy a tbl)" .
  with x(1) have "x \<in> set tbl'"
    by (simp add: transferAll_mem [OF pk t])
  with x(2) show "x \<in> {x \<in> set tbl'. projectId x = a}" by simp
qed

text \<open>
  C8 (rows of the source project), as the code has it. On a table with its primary key,
  \<^verbatim>\<open>transferAll\<close> returns, and the rows the source project holds afterwards are exactly
  its rows that were not owner rows: every owner row of the source is removed, and no
  other row of the source is.
\<close>

theorem transferAll_source_keeps_nonowner_rows:
  assumes pk: "primaryKey tbl"
  shows "\<exists>tbl'. transferAll a b tbl = Inr tbl'
           \<and> {x \<in> set tbl'. projectId x = a}
               = {x \<in> set tbl. projectId x = a \<and> role x \<noteq> ''credential:owner''}"
proof -
  from transferAll_returns(1) [OF pk, of a b] obtain tbl' where t: "transferAll a b tbl = Inr tbl'"
    by blast
  with transferAll_source_set [OF pk t] show ?thesis by blast
qed

theorem transferAll_source_keeps_nonowner_rows_witness:
  "primaryKey sharedTable
   \<and> transferAll ''pA'' ''pB'' sharedTable = Inr sharedResult
   \<and> {x \<in> set sharedResult. projectId x = ''pA''}
       = {\<lparr>credentialsId = ''c2'', projectId = ''pA'', role = ''credential:user''\<rparr>,
          \<lparr>credentialsId = ''c3'', projectId = ''pA'', role = ''credential:user''\<rparr>}"
proof -
  from transferAll_source_keeps_nonowner_rows [OF example_tables_wf(3), of "''pA''" "''pB''"]
  obtain tbl' where t: "transferAll ''pA'' ''pB'' sharedTable = Inr tbl'"
    and s: "{x \<in> set tbl'. projectId x = ''pA''}
               = {x \<in> set sharedTable. projectId x = ''pA'' \<and> role x \<noteq> ''credential:owner''}"
    by blast
  from t shared_transfer have e: "tbl' = sharedResult" by simp
  have "{x \<in> set sharedTable. projectId x = ''pA'' \<and> role x \<noteq> ''credential:owner''}
          = {\<lparr>credentialsId = ''c2'', projectId = ''pA'', role = ''credential:user''\<rparr>,
             \<lparr>credentialsId = ''c3'', projectId = ''pA'', role = ''credential:user''\<rparr>}"
    by (auto simp: sharedTable_def)
  with s e example_tables_wf(3) shared_transfer show ?thesis by simp
qed

text \<open>The source project \<open>pA\<close> keeps the two rows it did not own; \<open>c2\<close> is copied to
  \<open>pB\<close>, not moved.\<close>

theorem transferAll_source_retains_rows:
  "transferAll ''pA'' ''pB'' sharedTable
     = Inr [\<lparr>credentialsId = ''c2'', projectId = ''pA'', role = ''credential:user''\<rparr>,
            \<lparr>credentialsId = ''c3'', projectId = ''pA'', role = ''credential:user''\<rparr>,
            \<lparr>credentialsId = ''c3'', projectId = ''pB'', role = ''credential:owner''\<rparr>,
            \<lparr>credentialsId = ''c1'', projectId = ''pB'', role = ''credential:owner''\<rparr>,
            \<lparr>credentialsId = ''c2'', projectId = ''pB'', role = ''credential:user''\<rparr>]"
  using shared_transfer by (simp add: sharedResult_def)

subsection \<open>The destination project\<close>

lemma ownerRow_sel [simp]:
  "credentialsId (ownerRow c p) = c" "projectId (ownerRow c p) = p"
  "role (ownerRow c p) = ''credential:owner''"
  by (simp_all add: ownerRow_def)

lemma copyTo_sel [simp]:
  "credentialsId (copyTo p sc) = credentialsId sc" "projectId (copyTo p sc) = p"
  "role (copyTo p sc) = role sc"
  by (simp_all add: copyTo_def)

lemma copied_row_origin:
  assumes pk: "primaryKey tbl" and y: "y \<in> set (copiedRows a b tbl)"
    and sc: "sc \<in> set tbl" "projectId sc = a" "credentialsId sc = credentialsId y"
  shows "y = copyTo b sc"
proof -
  from y obtain sc' where s': "sc' \<in> set tbl" "projectId sc' = a" "y = copyTo b sc'"
    by (auto simp: set_copiedRows copyTo_def)
  from s'(3) have "credentialsId sc' = credentialsId y" by simp
  with primaryKey_same_key [OF pk s'(1) sc(1)] s'(2) sc(2,3) have "sc' = sc" by simp
  with s'(3) show ?thesis by simp
qed

lemma copied_row_intro:
  "sc \<in> set tbl \<Longrightarrow> projectId sc = a \<Longrightarrow> role sc \<noteq> ''credential:owner'' \<Longrightarrow>
   credentialsId sc \<notin> credentialsId ` {t \<in> set tbl. projectId t = b} \<Longrightarrow>
   copyTo b sc \<in> set (copiedRows a b tbl)"
  unfolding set_copiedRows copyTo_def by (rule imageI) simp

lemma dest_row_kept:
  assumes pk: "primaryKey tbl" and t: "transferAll a b tbl = Inr tbl'"
    and x: "x \<in> set tbl" "projectId x = b" "credentialsId x \<notin> set (ownedBy a tbl)"
  shows "rowsFor b (credentialsId x) tbl' = {x}"
proof (intro set_eqI iffI)
  fix y
  assume "y \<in> rowsFor b (credentialsId x) tbl'"
  then have y: "y \<in> set tbl'" "projectId y = b" "credentialsId y = credentialsId x"
    by (simp_all add: rowsFor_def)
  from y(1) have "y \<in> set tbl \<or> credentialsId y \<in> set (ownedBy a tbl)
                  \<or> y \<in> set (copiedRows a b tbl)"
    by (simp add: transferAll_mem [OF pk t]) blast
  then have "y = x"
  proof (elim disjE)
    assume "y \<in> set tbl"
    from primaryKey_same_key [OF pk this x(1)] y x show ?thesis by simp
  next
    assume "credentialsId y \<in> set (ownedBy a tbl)"
    with y(3) x(3) show ?thesis by simp
  next
    assume c: "y \<in> set (copiedRows a b tbl)"
    from x(1,2) have "credentialsId x \<in> credentialsId ` {t \<in> set tbl. projectId t = b}"
      by simp
    with copied_row_facts [OF c] y(3) show ?thesis by simp
  qed
  then show "y \<in> {x}" by simp
next
  fix y
  assume "y \<in> {x}"
  then have "y = x" by simp
  moreover from x have "x \<in> set tbl'" by (simp add: transferAll_mem [OF pk t])
  ultimately show "y \<in> rowsFor b (credentialsId x) tbl'"
    using x(2) by (simp add: rowsFor_def)
qed

lemma dest_row_overwritten:
  assumes pk: "primaryKey tbl" and t: "transferAll a b tbl = Inr tbl'"
    and ab: "a \<noteq> b" and c: "c \<in> set (ownedBy a tbl)"
  shows "rowsFor b c tbl' = {ownerRow c b}"
proof (intro set_eqI iffI)
  fix y
  assume "y \<in> rowsFor b c tbl'"
  then have y: "y \<in> set tbl'" "projectId y = b" "credentialsId y = c"
    by (simp_all add: rowsFor_def)
  from y(1) have "(y \<in> set tbl \<and> \<not> (projectId y = b \<and> credentialsId y \<in> set (ownedBy a tbl)))
                  \<or> y = ownerRow (credentialsId y) b
                  \<or> y \<in> set (copiedRows a b tbl)"
    by (simp add: transferAll_mem [OF pk t]) blast
  then have "y = ownerRow c b"
  proof (elim disjE conjE)
    assume "\<not> (projectId y = b \<and> credentialsId y \<in> set (ownedBy a tbl))"
    with y c show ?thesis by simp
  next
    assume "y = ownerRow (credentialsId y) b"
    with y(3) show ?thesis by simp
  next
    assume cp: "y \<in> set (copiedRows a b tbl)"
    from copied_row_facts [OF cp] obtain sc where
      sc: "sc \<in> set tbl" "projectId sc = a" "role sc = role y" "credentialsId sc = credentialsId y"
        and ro: "role y \<noteq> ''credential:owner''"
      by blast
    from sc ro have "role sc \<noteq> ''credential:owner''" by simp
    from nonowner_not_owned [OF pk sc(1,2) this] sc(4) y(3) c show ?thesis by simp
  qed
  then show "y \<in> {ownerRow c b}" by simp
next
  fix y
  assume "y \<in> {ownerRow c b}"
  then have y: "y = ownerRow c b" by simp
  with ab c have "y \<in> set tbl'" by (simp add: transferAll_mem [OF pk t])
  with y show "y \<in> rowsFor b c tbl'" by (simp add: rowsFor_def)
qed

lemma source_row_copied:
  assumes pk: "primaryKey tbl" and t: "transferAll a b tbl = Inr tbl'"
    and sc: "sc \<in> set tbl" "projectId sc = a" "role sc \<noteq> ''credential:owner''"
      "credentialsId sc \<notin> credentialsId ` {t \<in> set tbl. projectId t = b}"
  shows "rowsFor b (credentialsId sc) tbl' = {copyTo b sc}"
proof (intro set_eqI iffI)
  fix y
  assume "y \<in> rowsFor b (credentialsId sc) tbl'"
  then have y: "y \<in> set tbl'" "projectId y = b" "credentialsId y = credentialsId sc"
    by (simp_all add: rowsFor_def)
  from y(1) have "y \<in> set tbl \<or> credentialsId y \<in> set (ownedBy a tbl)
                  \<or> y \<in> set (copiedRows a b tbl)"
    by (simp add: transferAll_mem [OF pk t]) blast
  then have "y = copyTo b sc"
  proof (elim disjE)
    assume "y \<in> set tbl"
    with y(2) have "credentialsId y \<in> credentialsId ` {t \<in> set tbl. projectId t = b}" by simp
    with y(3) sc(4) show ?thesis by simp
  next
    assume "credentialsId y \<in> set (ownedBy a tbl)"
    with nonowner_not_owned [OF pk sc(1,2,3)] y(3) show ?thesis by simp
  next
    assume "y \<in> set (copiedRows a b tbl)"
    from copied_row_origin [OF pk this sc(1,2)] y(3) show ?thesis by simp
  qed
  then show "y \<in> {copyTo b sc}" by simp
next
  fix y
  assume "y \<in> {copyTo b sc}"
  then have y: "y = copyTo b sc" by simp
  from copied_row_intro [OF sc] have "copyTo b sc \<in> set tbl'"
    by (simp add: transferAll_mem [OF pk t])
  with y show "y \<in> rowsFor b (credentialsId sc) tbl'" by (simp add: rowsFor_def)
qed

text \<open>
  C6 (rows of the destination project), as the code has it. On a table with its primary
  key, \<^verbatim>\<open>transferAll\<close> returns, and afterwards: a row that the destination held for a
  credential the source does not own is the destination's only row for that credential,
  unchanged; for a credential the source owns, the destination's only row is the owner
  row (a row it held before is overwritten); and for a row of the source that is not an
  owner row, the destination keeps the rows it had for that credential when it had one,
  and holds exactly the copy of the row when it had none.
\<close>

theorem transferAll_destination_rows:
  assumes pk: "primaryKey tbl"
  shows "\<exists>tbl'. transferAll a b tbl = Inr tbl'
     \<and> (\<forall>x \<in> set tbl. projectId x = b \<and> credentialsId x \<notin> set (ownedBy a tbl) \<longrightarrow>
           rowsFor b (credentialsId x) tbl' = {x})
     \<and> (\<forall>c \<in> set (ownedBy a tbl). a \<noteq> b \<longrightarrow> rowsFor b c tbl' = {ownerRow c b})
     \<and> (\<forall>sc \<in> set tbl. projectId sc = a \<and> role sc \<noteq> ''credential:owner'' \<longrightarrow>
           (if credentialsId sc \<in> credentialsId ` {t \<in> set tbl. projectId t = b}
            then rowsFor b (credentialsId sc) tbl' = rowsFor b (credentialsId sc) tbl
            else rowsFor b (credentialsId sc) tbl' = {copyTo b sc}))"
proof -
  from transferAll_returns(1) [OF pk, of a b] obtain tbl' where t: "transferAll a b tbl = Inr tbl'"
    by blast
  have 1: "\<forall>x \<in> set tbl. projectId x = b \<and> credentialsId x \<notin> set (ownedBy a tbl) \<longrightarrow>
           rowsFor b (credentialsId x) tbl' = {x}"
    using dest_row_kept [OF pk t] by blast
  have 2: "\<forall>c \<in> set (ownedBy a tbl). a \<noteq> b \<longrightarrow> rowsFor b c tbl' = {ownerRow c b}"
    using dest_row_overwritten [OF pk t] by blast
  have 3: "\<forall>sc \<in> set tbl. projectId sc = a \<and> role sc \<noteq> ''credential:owner'' \<longrightarrow>
           (if credentialsId sc \<in> credentialsId ` {t \<in> set tbl. projectId t = b}
            then rowsFor b (credentialsId sc) tbl' = rowsFor b (credentialsId sc) tbl
            else rowsFor b (credentialsId sc) tbl' = {copyTo b sc})"
  proof (intro ballI impI)
    fix sc
    assume sc: "sc \<in> set tbl" and h: "projectId sc = a \<and> role sc \<noteq> ''credential:owner''"
    show "if credentialsId sc \<in> credentialsId ` {t \<in> set tbl. projectId t = b}
            then rowsFor b (credentialsId sc) tbl' = rowsFor b (credentialsId sc) tbl
            else rowsFor b (credentialsId sc) tbl' = {copyTo b sc}"
    proof (cases "credentialsId sc \<in> credentialsId ` {t \<in> set tbl. projectId t = b}")
      case True
      then obtain x where x: "x \<in> set tbl" "projectId x = b" "credentialsId x = credentialsId sc"
        by auto
      from h sc nonowner_not_owned [OF pk sc] x(3)
      have n: "credentialsId x \<notin> set (ownedBy a tbl)" by simp
      from dest_row_kept [OF pk t x(1,2) n] x(3)
      have a: "rowsFor b (credentialsId sc) tbl' = {x}" by simp
      have "rowsFor b (credentialsId sc) tbl = {x}"
      proof (intro set_eqI iffI)
        fix y assume "y \<in> rowsFor b (credentialsId sc) tbl"
        then have "y \<in> set tbl" "projectId y = b" "credentialsId y = credentialsId sc"
          by (simp_all add: rowsFor_def)
        with primaryKey_same_key [OF pk _ x(1), of y] x show "y \<in> {x}" by simp
      next
        fix y assume "y \<in> {x}"
        with x show "y \<in> rowsFor b (credentialsId sc) tbl" by (simp add: rowsFor_def)
      qed
      with a True show ?thesis by simp
    next
      case False
      with source_row_copied [OF pk t sc] h show ?thesis by simp
    qed
  qed
  from t 1 2 3 show ?thesis by blast
qed

theorem transferAll_destination_rows_witness:
  "primaryKey sharedTable
   \<and> transferAll ''pA'' ''pB'' sharedTable = Inr sharedResult
   \<and> rowsFor ''pB'' ''c3'' sharedResult
       = {\<lparr>credentialsId = ''c3'', projectId = ''pB'', role = ''credential:owner''\<rparr>}
   \<and> rowsFor ''pB'' ''c2'' sharedResult
       = {\<lparr>credentialsId = ''c2'', projectId = ''pB'', role = ''credential:user''\<rparr>}"
proof -
  let ?x = "\<lparr>credentialsId = ''c3'', projectId = ''pB'', role = ''credential:owner''\<rparr>"
  let ?sc = "\<lparr>credentialsId = ''c2'', projectId = ''pA'', role = ''credential:user''\<rparr>"
  from transferAll_destination_rows [OF example_tables_wf(3), of "''pA''" "''pB''"]
  obtain tbl' where t: "transferAll ''pA'' ''pB'' sharedTable = Inr tbl'"
    and 1: "\<forall>x \<in> set sharedTable. projectId x = ''pB''
              \<and> credentialsId x \<notin> set (ownedBy ''pA'' sharedTable) \<longrightarrow>
           rowsFor ''pB'' (credentialsId x) tbl' = {x}"
    and 3: "\<forall>sc \<in> set sharedTable. projectId sc = ''pA'' \<and> role sc \<noteq> ''credential:owner'' \<longrightarrow>
           (if credentialsId sc \<in> credentialsId ` {t \<in> set sharedTable. projectId t = ''pB''}
            then rowsFor ''pB'' (credentialsId sc) tbl' = rowsFor ''pB'' (credentialsId sc) sharedTable
            else rowsFor ''pB'' (credentialsId sc) tbl' = {copyTo ''pB'' sc})"
    by blast
  from t shared_transfer have e: "tbl' = sharedResult" by simp
  have x: "?x \<in> set sharedTable" "projectId ?x = ''pB''"
    "credentialsId ?x \<notin> set (ownedBy ''pA'' sharedTable)"
    by (simp_all add: sharedTable_def ownedBy_def)
  from 1 x have a: "rowsFor ''pB'' ''c3'' tbl' = {?x}" by force
  have sc: "?sc \<in> set sharedTable" "projectId ?sc = ''pA''" "role ?sc \<noteq> ''credential:owner''"
    by (simp_all add: sharedTable_def)
  have f: "credentialsId ?sc \<notin> credentialsId ` {t \<in> set sharedTable. projectId t = ''pB''}"
    by (auto simp: sharedTable_def)
  from 3 sc f have b: "rowsFor ''pB'' ''c2'' tbl' = {copyTo ''pB'' ?sc}" by force
  from a b e example_tables_wf(3) shared_transfer show ?thesis by (simp add: copyTo_def)
qed

text \<open>The scenario of the spec: the row by which \<open>pB\<close> used \<open>c1\<close> becomes the owner
  row.\<close>

theorem transferAll_overwrites_destination_row:
  "\<lparr>credentialsId = ''c1'', projectId = ''pB'', role = ''credential:user''\<rparr> \<in> set scenarioTable
   \<and> transferAll ''pA'' ''pB'' scenarioTable
       = Inr [\<lparr>credentialsId = ''c1'', projectId = ''pB'', role = ''credential:owner''\<rparr>,
              \<lparr>credentialsId = ''c2'', projectId = ''pB'', role = ''credential:owner''\<rparr>]"
  using scenario_transfer by (simp add: scenarioTable_def scenarioResult_def)

subsection \<open>The owner rows\<close>

lemma singleOwner_iff:
  assumes d: "distinct tbl"
  shows "singleOwner tbl \<longleftrightarrow>
           (\<forall>x \<in> set tbl. \<forall>y \<in> set tbl.
              role x = ''credential:owner'' \<and> role y = ''credential:owner''
              \<and> credentialsId x = credentialsId y \<longrightarrow> x = y)"
proof -
  from d have "distinct (filter (\<lambda>sc. role sc = ''credential:owner'') tbl)" by simp
  then have "singleOwner tbl
      \<longleftrightarrow> inj_on credentialsId (set (filter (\<lambda>sc. role sc = ''credential:owner'') tbl))"
    by (simp add: singleOwner_def distinct_map)
  also have "\<dots> \<longleftrightarrow> (\<forall>x \<in> set tbl. \<forall>y \<in> set tbl.
              role x = ''credential:owner'' \<and> role y = ''credential:owner''
              \<and> credentialsId x = credentialsId y \<longrightarrow> x = y)"
    by (auto simp: inj_on_def)
  finally show ?thesis .
qed

lemma owner_count_card:
  assumes so: "singleOwner tbl"
  shows "length (ownerRowsAcross a b tbl)
           = card (credentialsId `
               {x \<in> set tbl. role x = ''credential:owner'' \<and> (projectId x = a \<or> projectId x = b)})"
proof -
  have e: "ownerRowsAcross a b tbl
           = filter (\<lambda>sc. projectId sc = a \<or> projectId sc = b)
               (filter (\<lambda>sc. role sc = ''credential:owner'') tbl)"
    by (simp add: ownerRowsAcross_def conj_commute)
  from so have "distinct (map credentialsId (ownerRowsAcross a b tbl))"
    unfolding e singleOwner_def by (rule distinct_map_filter)
  then have "card (set (map credentialsId (ownerRowsAcross a b tbl)))
               = length (map credentialsId (ownerRowsAcross a b tbl))"
    by (rule distinct_card)
  moreover have "set (map credentialsId (ownerRowsAcross a b tbl))
      = credentialsId `
          {x \<in> set tbl. role x = ''credential:owner'' \<and> (projectId x = a \<or> projectId x = b)}"
    by (simp add: ownerRowsAcross_def)
  ultimately show ?thesis by simp
qed

lemma owner_row_after:
  assumes pk: "primaryKey tbl" and t: "transferAll a b tbl = Inr tbl'"
    and x: "x \<in> set tbl'" "role x = ''credential:owner''"
  shows "(x \<in> set tbl \<and> \<not> (projectId x = a \<and> credentialsId x \<in> set (ownedBy a tbl)))
         \<or> (credentialsId x \<in> set (ownedBy a tbl) \<and> x = ownerRow (credentialsId x) b)"
proof -
  from x(1) have "(x \<in> set tbl \<and> \<not> (projectId x = a \<and> credentialsId x \<in> set (ownedBy a tbl)))
         \<or> (credentialsId x \<in> set (ownedBy a tbl) \<and> x = ownerRow (credentialsId x) b)
         \<or> x \<in> set (copiedRows a b tbl)"
    by (simp add: transferAll_mem [OF pk t]) blast
  moreover from x(2) copied_row_facts [of x a b tbl] have "x \<notin> set (copiedRows a b tbl)"
    by blast
  ultimately show ?thesis by blast
qed

lemma singleOwner_after:
  assumes pk: "primaryKey tbl" and so: "singleOwner tbl" and t: "transferAll a b tbl = Inr tbl'"
  shows "singleOwner tbl'"
proof -
  from pk have d: "distinct tbl" by (rule primaryKey_distinct)
  from transferAll_primaryKey [OF pk t] have d': "distinct tbl'" by (rule primaryKey_distinct)
  from so d have inj: "\<And>x y. x \<in> set tbl \<Longrightarrow> y \<in> set tbl \<Longrightarrow> role x = ''credential:owner''
      \<Longrightarrow> role y = ''credential:owner'' \<Longrightarrow> credentialsId x = credentialsId y \<Longrightarrow> x = y"
    by (simp add: singleOwner_iff)
  have old_new: "x = y"
    if x: "x \<in> set tbl" "\<not> (projectId x = a \<and> credentialsId x \<in> set (ownedBy a tbl))"
       "role x = ''credential:owner''"
      and y: "credentialsId y \<in> set (ownedBy a tbl)" and e: "credentialsId x = credentialsId y"
    for x y
  proof -
    from owned_has_owner_row [OF y] obtain z where
      z: "z \<in> set tbl" "projectId z = a" "role z = ''credential:owner''"
         "credentialsId z = credentialsId y" by blast
    from inj [OF x(1) z(1) x(3) z(3)] e z(4) have "x = z" by simp
    with z(2) y e x(2) show ?thesis by simp
  qed
  have "\<forall>x \<in> set tbl'. \<forall>y \<in> set tbl'.
          role x = ''credential:owner'' \<and> role y = ''credential:owner''
          \<and> credentialsId x = credentialsId y \<longrightarrow> x = y"
  proof (intro ballI impI)
    fix x y
    assume x: "x \<in> set tbl'" and y: "y \<in> set tbl'"
      and h: "role x = ''credential:owner'' \<and> role y = ''credential:owner''
              \<and> credentialsId x = credentialsId y"
    from h have rx: "role x = ''credential:owner''" and ry: "role y = ''credential:owner''"
      and e: "credentialsId x = credentialsId y" by simp_all
    from owner_row_after [OF pk t x rx] owner_row_after [OF pk t y ry]
    show "x = y"
    proof (elim disjE conjE)
      assume "x \<in> set tbl" "y \<in> set tbl"
      from inj [OF this rx ry e] show ?thesis .
    next
      assume "x \<in> set tbl" "\<not> (projectId x = a \<and> credentialsId x \<in> set (ownedBy a tbl))"
        "credentialsId y \<in> set (ownedBy a tbl)"
      from old_new [OF this(1,2) rx this(3) e] show ?thesis .
    next
      assume "y \<in> set tbl" "\<not> (projectId y = a \<and> credentialsId y \<in> set (ownedBy a tbl))"
        "credentialsId x \<in> set (ownedBy a tbl)"
      from old_new [OF this(1,2) ry this(3) e [symmetric]] show ?thesis by simp
    next
      assume "x = ownerRow (credentialsId x) b" "y = ownerRow (credentialsId y) b"
      with e show ?thesis by simp
    qed
  qed
  with d' show ?thesis by (simp add: singleOwner_iff)
qed

lemma owner_credentials_after:
  assumes pk: "primaryKey tbl" and t: "transferAll a b tbl = Inr tbl'" and ab: "a \<noteq> b"
  shows "credentialsId `
           {x \<in> set tbl'. role x = ''credential:owner'' \<and> (projectId x = a \<or> projectId x = b)}
         = credentialsId `
           {x \<in> set tbl. role x = ''credential:owner'' \<and> (projectId x = a \<or> projectId x = b)}"
    (is "?L = ?R")
proof (intro set_eqI iffI)
  fix c
  assume "c \<in> ?L"
  then obtain x where x: "x \<in> set tbl'" "role x = ''credential:owner''"
    "projectId x = a \<or> projectId x = b" "c = credentialsId x" by auto
  from owner_row_after [OF pk t x(1,2)] show "c \<in> ?R"
  proof (elim disjE conjE)
    assume "x \<in> set tbl"
    with x show ?thesis by auto
  next
    assume "credentialsId x \<in> set (ownedBy a tbl)"
    from owned_has_owner_row [OF this] obtain z where
      z: "z \<in> set tbl" "projectId z = a" "role z = ''credential:owner''"
      "credentialsId z = credentialsId x" by blast
    from z(1,2,3) have "z \<in> {x \<in> set tbl. role x = ''credential:owner''
                 \<and> (projectId x = a \<or> projectId x = b)}" by simp
    then have "credentialsId z \<in> ?R" by (rule imageI)
    with z(4) x(4) show ?thesis by simp
  qed
next
  fix c
  assume "c \<in> ?R"
  then obtain x where x: "x \<in> set tbl" "role x = ''credential:owner''"
    "projectId x = a \<or> projectId x = b" "c = credentialsId x" by auto
  show "c \<in> ?L"
  proof (cases "c \<in> set (ownedBy a tbl)")
    case True
    with ab have "ownerRow c b \<in> set tbl'" by (simp add: transferAll_mem [OF pk t])
    then have "ownerRow c b \<in> {x \<in> set tbl'. role x = ''credential:owner''
                 \<and> (projectId x = a \<or> projectId x = b)}" by simp
    then have "credentialsId (ownerRow c b) \<in> ?L" by (rule imageI)
    then show ?thesis by simp
  next
    case False
    with x(1,2,4) owner_row_owned [of x tbl a] have pa: "projectId x \<noteq> a" by blast
    with x(3) have pb: "projectId x = b" by simp
    from False x(1,4) have "x \<in> set tbl'" by (simp add: transferAll_mem [OF pk t])
    with x(2) pb have "x \<in> {x \<in> set tbl'. role x = ''credential:owner''
                 \<and> (projectId x = a \<or> projectId x = b)}" by simp
    then have "credentialsId x \<in> ?L" by (rule imageI)
    with x(4) show ?thesis by simp
  qed
qed

text \<open>
  C2 (ownership invariant): on a table with its primary key in which no credential has
  two owner rows, \<^verbatim>\<open>transferAll\<close> from a project to another one returns a table in
  which the two projects hold as many owner rows as before, and in which no credential
  has two owner rows.
\<close>

theorem transferAll_ownership_invariant:
  assumes pk: "primaryKey tbl" and so: "singleOwner tbl" and ab: "a \<noteq> b"
  shows "\<exists>tbl'. transferAll a b tbl = Inr tbl'
           \<and> length (ownerRowsAcross a b tbl') = length (ownerRowsAcross a b tbl)
           \<and> singleOwner tbl'"
proof -
  from transferAll_returns(1) [OF pk, of a b] obtain tbl' where t: "transferAll a b tbl = Inr tbl'"
    by blast
  from singleOwner_after [OF pk so t] have so': "singleOwner tbl'" .
  from owner_count_card [OF so'] owner_count_card [OF so] owner_credentials_after [OF pk t ab]
  have "length (ownerRowsAcross a b tbl') = length (ownerRowsAcross a b tbl)" by simp
  with t so' show ?thesis by blast
qed

theorem transferAll_ownership_invariant_witness:
  "primaryKey scenarioTable \<and> singleOwner scenarioTable
   \<and> transferAll ''pA'' ''pB'' scenarioTable = Inr scenarioResult
   \<and> length (ownerRowsAcross ''pA'' ''pB'' scenarioResult) = 2
   \<and> length (ownerRowsAcross ''pA'' ''pB'' scenarioTable) = 2
   \<and> singleOwner scenarioResult"
proof -
  have ab: "''pA'' \<noteq> ''pB''" by simp
  from transferAll_ownership_invariant [OF example_tables_wf(1,2) ab]
  obtain tbl' where t: "transferAll ''pA'' ''pB'' scenarioTable = Inr tbl'"
    and l: "length (ownerRowsAcross ''pA'' ''pB'' tbl')
              = length (ownerRowsAcross ''pA'' ''pB'' scenarioTable)"
    and s: "singleOwner tbl'" by blast
  from t scenario_transfer have e: "tbl' = scenarioResult" by simp
  have n: "length (ownerRowsAcross ''pA'' ''pB'' scenarioTable) = 2"
    by (simp add: ownerRowsAcross_def scenarioTable_def)
  from l s e n example_tables_wf scenario_transfer show ?thesis by simp
qed

end
